theory Spec2Isabelle
  imports Main "HOL-Library.Word"
begin

unbundle bit_operations_syntax

section \<open>Data model\<close>

text \<open>
  The policy manager \<^verbatim>\<open>ConfAppManager\<close> (src/ui/conf/confappmanager.cpp) keeps
  application policy rows in an SQLite store, pushes them to the driver and arms one
  single-shot timer for the soonest scheduled block. Timestamps are milliseconds since
  the epoch; a null \<^verbatim>\<open>QDateTime\<close> and an SQL NULL are \<open>None\<close>; \<^verbatim>\<open>quint32\<close> is \<open>32 word\<close>.
\<close>

text \<open>The fields of class \<^verbatim>\<open>App\<close> that the manager reads and writes.\<close>

record App =
  isWildcard :: bool
  useGroupPerm :: bool
  applyChild :: bool
  killChild :: bool
  lanOnly :: bool
  logBlocked :: bool
  logConn :: bool
  blocked :: bool
  killProcess :: bool
  alerted :: bool
  groupIndex :: int
  acceptZones :: "32 word"
  rejectZones :: "32 word"
  appId :: int
  appOriginPath :: string
  appPath :: string
  appName :: string
  endTime :: "int option"

text \<open>
  One row of table \<^verbatim>\<open>app\<close>, with the columns the statements name
  (the prefix stands for the alias \<^verbatim>\<open>t.\<close> of the SELECT statements).
\<close>

record app_row =
  t_app_id :: int
  t_app_group_id :: int
  t_origin_path :: string
  t_path :: "string option"
  t_name :: string
  t_is_wildcard :: bool
  t_use_group_perm :: bool
  t_apply_child :: bool
  t_kill_child :: bool
  t_lan_only :: bool
  t_log_blocked :: bool
  t_log_conn :: bool
  t_blocked :: bool
  t_kill_process :: bool
  t_accept_zones :: "32 word"
  t_reject_zones :: "32 word"
  t_end_time :: "int option"
  t_creat_time :: int

text \<open>
  The store: table \<^verbatim>\<open>app\<close> in rowid order, the side table \<^verbatim>\<open>app_alert\<close> (a set of
  app ids) and table \<^verbatim>\<open>app_group\<close> as a map from \<^verbatim>\<open>app_group_id\<close> to \<^verbatim>\<open>order_index\<close>.
\<close>

record database =
  app :: "app_row list"
  app_alert :: "int set"
  app_group :: "int \<rightharpoonup> int"

text \<open>The SQL statements of the manager, by the name of their constant.\<close>

datatype sql =
    SqlSelectAppPaths | SqlSelectAppById | SqlSelectApps | SqlSelectMinEndApp
  | SqlSelectEndedApps | SqlSelectAppIdByPath | SqlUpsertApp | SqlInsertAppAlert
  | SqlDeleteApp | SqlDeleteAppAlert | SqlUpdateApp | SqlUpdateAppName
  | SqlUpdateAppBlocked

text \<open>
  What the manager does to its collaborators, in the order it does it: transaction
  boundaries of the store, the error box, the three debounced notifications and the two
  driver writes (\<^verbatim>\<open>DriverManager::writeApp(buf, size, remove)\<close> and
  \<^verbatim>\<open>DriverManager::writeConf(buf, size, onlyFlags)\<close>).
\<close>

datatype event =
    BeginTransaction | CommitTransaction | RollbackTransaction
  | ShowErrorMessage
  | EmitAppAlerted | EmitAppChanged | EmitAppUpdated
  | WriteApp App bool
  | WriteConf bool

text \<open>
  The collaborators that are not part of the manager, as parameters of every operation:
  whether the engine executes a statement at all (\<open>stmt_ok\<close>: false for an I/O error, a
  full disk, a locked file), the group resolver \<^verbatim>\<open>FirewallConf::appGroupAt\<close> (\<open>None\<close> for
  the null group, else the group's id), the member initialisers of class \<^verbatim>\<open>App\<close>, the
  clock, \<^verbatim>\<open>FileUtil::normalizePath\<close>, \<^verbatim>\<open>AppInfoCache::appName\<close>, the encoder
  \<^verbatim>\<open>ConfUtil\<close> (\<open>None\<close> when the size it returns is 0, else the drive mask it computed) and
  the result of the two driver writes.
\<close>

record env =
  stmt_ok :: "sql \<Rightarrow> bool"
  appGroupAt :: "int \<Rightarrow> int option"
  appInit :: App
  currentMSecs :: int
  normalizePath :: "string \<Rightarrow> string"
  appNameOf :: "string \<Rightarrow> string"
  isDriveFilePath :: "string \<Rightarrow> bool"
  fileExists :: "string \<Rightarrow> bool"
  writeAppEntry :: "App \<Rightarrow> 32 word option"
  writeConfBuf :: "bool \<Rightarrow> database \<Rightarrow> 32 word option"
  driverWriteApp :: "App \<Rightarrow> bool \<Rightarrow> bool"
  driverWriteConf :: "bool \<Rightarrow> bool"

text \<open>
  The manager's state: the store, the snapshot a rollback returns to while a transaction
  is open, \<^verbatim>\<open>m_driveMask\<close>, \<^verbatim>\<open>m_appEndTimer\<close> (\<open>None\<close> when stopped, else the interval
  it was started with) and the trace of events so far.
\<close>

record state =
  sqliteDb :: database
  txn :: "database option"
  m_driveMask :: "32 word"
  m_appEndTimer :: "int option"
  trace :: "event list"

definition APP_END_TIMER_INTERVAL_MIN :: int where
  "APP_END_TIMER_INTERVAL_MIN = 100"

definition APP_END_TIMER_INTERVAL_MAX :: int where
  "APP_END_TIMER_INTERVAL_MAX = 24 * 60 * 60 * 1000"

section \<open>The SQL statements\<close>

text \<open>
  A text column read with \<^verbatim>\<open>columnText\<close> is empty for NULL; an empty path is bound as
  NULL (\<^verbatim>\<open>!app.appPath.isEmpty() ? app.appPath : QVariant()\<close>).
\<close>

definition pathVar :: "App \<Rightarrow> string option" where
  "pathVar a = (if appPath a \<noteq> [] then Some (appPath a) else None)"

definition columnText :: "string option \<Rightarrow> string" where
  "columnText v = (case v of None \<Rightarrow> [] | Some t \<Rightarrow> t)"

text \<open>
  \<^verbatim>\<open>SET app_group_id = ?, origin_path = ?, name = ?, ..., end_time = ?\<close>: the columns that
  both \<^verbatim>\<open>sqlUpsertApp\<close> (on conflict) and \<^verbatim>\<open>sqlUpdateApp\<close> assign; neither assigns
  \<^verbatim>\<open>creat_time\<close>.
\<close>

definition setAppColumns :: "int \<Rightarrow> App \<Rightarrow> app_row \<Rightarrow> app_row" where
  "setAppColumns gid a r = r\<lparr>
     t_app_group_id := gid, t_origin_path := appOriginPath a, t_name := appName a,
     t_is_wildcard := isWildcard a, t_use_group_perm := useGroupPerm a,
     t_apply_child := applyChild a, t_kill_child := killChild a,
     t_lan_only := lanOnly a, t_log_blocked := logBlocked a, t_log_conn := logConn a,
     t_blocked := blocked a, t_kill_process := killProcess a,
     t_accept_zones := acceptZones a, t_reject_zones := rejectZones a,
     t_end_time := endTime a\<rparr>"

text \<open>The row that the INSERT of \<^verbatim>\<open>sqlUpsertApp\<close> creates.\<close>

definition insertedRow :: "int \<Rightarrow> int \<Rightarrow> App \<Rightarrow> int \<Rightarrow> app_row" where
  "insertedRow i gid a ct = \<lparr>
     t_app_id = i, t_app_group_id = gid, t_origin_path = appOriginPath a,
     t_path = pathVar a, t_name = appName a,
     t_is_wildcard = isWildcard a, t_use_group_perm = useGroupPerm a,
     t_apply_child = applyChild a, t_kill_child = killChild a,
     t_lan_only = lanOnly a, t_log_blocked = logBlocked a, t_log_conn = logConn a,
     t_blocked = blocked a, t_kill_process = killProcess a,
     t_accept_zones = acceptZones a, t_reject_zones = rejectZones a,
     t_end_time = endTime a, t_creat_time = ct\<rparr>"

text \<open>The id SQLite gives a new row: one more than the largest in use, 1 in an empty table.\<close>

definition newAppId :: "app_row list \<Rightarrow> int" where
  "newAppId rows = 1 + foldr max (map t_app_id rows) 0"

text \<open>
  \<^verbatim>\<open>INSERT INTO app(...) VALUES(...) ON CONFLICT(path) DO UPDATE SET ... RETURNING app_id\<close>:
  a NULL path never conflicts; a path that a row already has updates that row and
  returns its id; else a new row is appended.
\<close>

definition sqlUpsertApp :: "int \<Rightarrow> App \<Rightarrow> int \<Rightarrow> database \<Rightarrow> int \<times> database" where
  "sqlUpsertApp gid a ct d =
     (case (case pathVar a of None \<Rightarrow> None
            | Some p \<Rightarrow> find (\<lambda>r. t_path r = Some p) (app d)) of
        Some r0 \<Rightarrow>
          (t_app_id r0,
           d\<lparr>app := map (\<lambda>r. if t_path r = t_path r0 then setAppColumns gid a r else r) (app d)\<rparr>)
      | None \<Rightarrow>
          (newAppId (app d),
           d\<lparr>app := app d @ [insertedRow (newAppId (app d)) gid a ct]\<rparr>))"

text \<open>\<^verbatim>\<open>INSERT INTO app_alert(app_id) VALUES(?1)\<close> and \<^verbatim>\<open>DELETE FROM app_alert WHERE app_id = ?1\<close>.\<close>

definition sqlInsertAppAlert :: "int \<Rightarrow> database \<Rightarrow> database" where
  "sqlInsertAppAlert i d = d\<lparr>app_alert := insert i (app_alert d)\<rparr>"

definition sqlDeleteAppAlert :: "int \<Rightarrow> database \<Rightarrow> database" where
  "sqlDeleteAppAlert i d = d\<lparr>app_alert := app_alert d - {i}\<rparr>"

text \<open>
  \<^verbatim>\<open>DELETE FROM app WHERE app_id = ?1 RETURNING path, is_wildcard\<close>: the two returned
  columns of the deleted row and the table without it; \<open>None\<close> when no row has the id.
\<close>

definition sqlDeleteApp :: "int \<Rightarrow> database \<Rightarrow> ((string option \<times> bool) \<times> database) option" where
  "sqlDeleteApp i d =
     (case find (\<lambda>r. t_app_id r = i) (app d) of
        None \<Rightarrow> None
      | Some r \<Rightarrow> Some ((t_path r, t_is_wildcard r),
                        d\<lparr>app := filter (\<lambda>r. t_app_id r \<noteq> i) (app d)\<rparr>))"

text \<open>
  \<^verbatim>\<open>UPDATE app SET app_group_id = ?2, ..., path = ?4, ..., end_time = ?17 WHERE app_id = ?1\<close>.
  The statement fails (\<open>None\<close>) when it would give the row a path that another row has:
  \<^verbatim>\<open>path\<close> is unique, as \<^verbatim>\<open>ON CONFLICT(path)\<close> requires.
\<close>

definition sqlUpdateApp :: "int \<Rightarrow> App \<Rightarrow> database \<Rightarrow> database option" where
  "sqlUpdateApp gid a d =
     (if pathVar a \<noteq> None \<and> list_ex (\<lambda>r. t_app_id r = appId a) (app d)
         \<and> list_ex (\<lambda>r. t_app_id r \<noteq> appId a \<and> t_path r = pathVar a) (app d)
      then None
      else Some (d\<lparr>app := map (\<lambda>r. if t_app_id r = appId a
                                    then (setAppColumns gid a r)\<lparr>t_path := pathVar a\<rparr>
                                    else r) (app d)\<rparr>))"

text \<open>\<^verbatim>\<open>UPDATE app SET name = ?2 WHERE app_id = ?1\<close>.\<close>

definition sqlUpdateAppName :: "int \<Rightarrow> string \<Rightarrow> database \<Rightarrow> database" where
  "sqlUpdateAppName i n d =
     d\<lparr>app := map (\<lambda>r. if t_app_id r = i then r\<lparr>t_name := n\<rparr> else r) (app d)\<rparr>"

text \<open>\<^verbatim>\<open>UPDATE app SET blocked = ?2, kill_process = ?3, end_time = NULL WHERE app_id = ?1\<close>.\<close>

definition sqlUpdateAppBlocked :: "int \<Rightarrow> bool \<Rightarrow> bool \<Rightarrow> database \<Rightarrow> database" where
  "sqlUpdateAppBlocked i b k d =
     d\<lparr>app := map (\<lambda>r. if t_app_id r = i
                       then r\<lparr>t_blocked := b, t_kill_process := k, t_end_time := None\<rparr>
                       else r) (app d)\<rparr>"

text \<open>\<^verbatim>\<open>SELECT app_id FROM app WHERE path = ?1\<close>, first row.\<close>

definition sqlSelectAppIdByPath :: "string \<Rightarrow> database \<Rightarrow> int option" where
  "sqlSelectAppIdByPath p d = map_option t_app_id (find (\<lambda>r. t_path r = Some p) (app d))"

text \<open>
  \<^verbatim>\<open>SELECT MIN(end_time) FROM app WHERE end_time != 0 AND blocked = 0\<close>: NULL (\<open>None\<close>)
  when no row qualifies; a NULL \<^verbatim>\<open>end_time\<close> does not qualify.
\<close>

definition pendingEndTimes :: "database \<Rightarrow> int list" where
  "pendingEndTimes d =
     concat (map (\<lambda>r. case t_end_time r of
                        None \<Rightarrow> []
                      | Some t \<Rightarrow> if t \<noteq> 0 \<and> \<not> t_blocked r then [t] else []) (app d))"

definition sqlSelectMinEndApp :: "database \<Rightarrow> int option" where
  "sqlSelectMinEndApp d =
     (case pendingEndTimes d of [] \<Rightarrow> None | t # ts \<Rightarrow> Some (foldr min ts t))"

text \<open>
  \<^verbatim>\<open>SELECT_APP_FIELDS FROM app t JOIN app_group g ... LEFT JOIN app_alert alert ...\<close>: a row
  whose group is not in \<^verbatim>\<open>app_group\<close> is not selected; \<^verbatim>\<open>fillApp\<close> copies the sixteen
  selected columns into the \<^verbatim>\<open>App\<close> and leaves \<^verbatim>\<open>appName\<close> and \<^verbatim>\<open>endTime\<close> as they were.
\<close>

definition fillApp :: "database \<Rightarrow> int \<Rightarrow> app_row \<Rightarrow> App \<Rightarrow> App" where
  "fillApp d gi r a = a\<lparr>
     appId := t_app_id r, appOriginPath := t_origin_path r,
     appPath := columnText (t_path r),
     isWildcard := t_is_wildcard r, useGroupPerm := t_use_group_perm r,
     applyChild := t_apply_child r, killChild := t_kill_child r,
     lanOnly := t_lan_only r, logBlocked := t_log_blocked r, logConn := t_log_conn r,
     blocked := t_blocked r, killProcess := t_kill_process r,
     acceptZones := t_accept_zones r, rejectZones := t_reject_zones r,
     groupIndex := gi, alerted := (t_app_id r \<in> app_alert d)\<rparr>"

definition selectAppFields :: "database \<Rightarrow> (app_row \<Rightarrow> bool) \<Rightarrow> (int \<times> app_row) list" where
  "selectAppFields d w =
     concat (map (\<lambda>r. case app_group d (t_app_group_id r) of
                        None \<Rightarrow> []
                      | Some gi \<Rightarrow> [(gi, r)]) (filter w (app d)))"

definition sqlSelectAppById :: "int \<Rightarrow> database \<Rightarrow> (int \<times> app_row) list" where
  "sqlSelectAppById i d = selectAppFields d (\<lambda>r. t_app_id r = i)"

text \<open>\<^verbatim>\<open>... WHERE end_time <= ?1 AND blocked = 0\<close>.\<close>

definition sqlSelectEndedApps :: "int \<Rightarrow> database \<Rightarrow> (int \<times> app_row) list" where
  "sqlSelectEndedApps now d =
     selectAppFields d (\<lambda>r. (case t_end_time r of None \<Rightarrow> False | Some t \<Rightarrow> t \<le> now)
                              \<and> \<not> t_blocked r)"

section \<open>The store interface\<close>

definition emit :: "event \<Rightarrow> state \<Rightarrow> state" where
  "emit ev s = s\<lparr>trace := trace s @ [ev]\<rparr>"

definition showErrorMessage :: "state \<Rightarrow> state" where
  "showErrorMessage s = emit ShowErrorMessage s"

definition emitAppAlerted :: "state \<Rightarrow> state" where
  "emitAppAlerted s = emit EmitAppAlerted s"

definition emitAppChanged :: "state \<Rightarrow> state" where
  "emitAppChanged s = emit EmitAppChanged s"

definition emitAppUpdated :: "state \<Rightarrow> state" where
  "emitAppUpdated s = emit EmitAppUpdated s"

text \<open>
  Modelled from the spec: class \<^verbatim>\<open>SqliteDb\<close> (sqlite/sqlitedb.h) is not among the sources.
  Of its transaction boundary the spec says \<^verbatim>\<open>beginTransaction\<close>/\<^verbatim>\<open>commitTransaction\<close>,
  auto-rollback on failure: \<open>beginTransaction\<close> keeps the store as it is,
  \<open>endTransaction True\<close> commits and \<open>endTransaction False\<close> returns the store to what it was
  at \<open>beginTransaction\<close>. The commit itself is taken to succeed.
\<close>

definition beginTransaction :: "state \<Rightarrow> state" where
  "beginTransaction s = emit BeginTransaction (s\<lparr>txn := Some (sqliteDb s)\<rparr>)"

definition endTransaction :: "bool \<Rightarrow> state \<Rightarrow> bool \<times> state" where
  "endTransaction ok s =
     (if ok then (True, emit CommitTransaction (s\<lparr>txn := None\<rparr>))
      else (False, emit RollbackTransaction
              (s\<lparr>sqliteDb := (case txn s of None \<Rightarrow> sqliteDb s | Some d \<Rightarrow> d), txn := None\<rparr>)))"

text \<open>
  \<^verbatim>\<open>ConfAppManager::checkEndTransaction\<close> and \<^verbatim>\<open>ConfAppManager::commitTransaction\<close>, as in
  the source: the error box is shown when the transaction did not end well.
\<close>

definition checkEndTransaction :: "bool \<Rightarrow> state \<Rightarrow> bool \<times> state" where
  "checkEndTransaction ok s = (if \<not> ok then (ok, showErrorMessage s) else (ok, s))"

definition commitTransaction :: "bool \<Rightarrow> state \<Rightarrow> bool \<times> state" where
  "commitTransaction ok s = (case endTransaction ok s of (ok', s') \<Rightarrow> checkEndTransaction ok' s')"

text \<open>
  Modelled from the spec: \<^verbatim>\<open>SqliteDb::executeEx(sql, vars, resultCount, &ok)\<close> is not among
  the sources. It runs one statement: \<open>None\<close> is \<^verbatim>\<open>ok = false\<close> with the store unchanged
  (the engine could not execute the statement, or the statement itself failed), \<open>Some r\<close>
  is \<^verbatim>\<open>ok = true\<close> with the returned columns \<open>r\<close>. For \<^verbatim>\<open>sqlDeleteApp\<close> the spec's contract
  is \<^verbatim>\<open>delete(id) -> (path, isWildcard) | ok=false\<close>.
\<close>

definition executeEx ::
  "env \<Rightarrow> sql \<Rightarrow> (database \<Rightarrow> ('r \<times> database) option) \<Rightarrow> state \<Rightarrow> 'r option \<times> state" where
  "executeEx e q f s =
     (if \<not> stmt_ok e q then (None, s)
      else case f (sqliteDb s) of
             None \<Rightarrow> (None, s)
           | Some (r, d) \<Rightarrow> (Some r, s\<lparr>sqliteDb := d\<rparr>))"

text \<open>A statement that returns no column and cannot fail by itself.\<close>

definition stepDone :: "database \<Rightarrow> (unit \<times> database) option" where
  "stepDone d = Some ((), d)"

text \<open>A read-only statement: the engine may still fail to prepare or run it.\<close>

definition query :: "env \<Rightarrow> sql \<Rightarrow> (database \<Rightarrow> 'r) \<Rightarrow> state \<Rightarrow> 'r option" where
  "query e q f s = (if stmt_ok e q then Some (f (sqliteDb s)) else None)"

section \<open>The policy manager\<close>

text \<open>
  A default-constructed \<^verbatim>\<open>App\<close>: the member initialisers of the class, with the null
  strings and the null \<^verbatim>\<open>QDateTime\<close> that Qt's default constructors give.
\<close>

definition newApp :: "env \<Rightarrow> App" where
  "newApp e = (appInit e)\<lparr>appOriginPath := [], appPath := [], appName := [], endTime := None\<rparr>"

subsection \<open>Expiry timer\<close>

text \<open>
  The interval of \<^verbatim>\<open>updateAppEndTimer\<close>, on \<^verbatim>\<open>qint64\<close>:
  \<^verbatim>\<open>qMax((deltaMsecs > 0 ? int(qMin(deltaMsecs, qint64(APP_END_TIMER_INTERVAL_MAX))) : 0),
  APP_END_TIMER_INTERVAL_MIN)\<close> with \<^verbatim>\<open>deltaMsecs = endTimeMsecs - currentMsecs\<close>.
\<close>

definition appEndTimerInterval :: "64 word \<Rightarrow> 64 word \<Rightarrow> int" where
  "appEndTimerInterval endTimeMsecs currentMsecs =
     (let deltaMsecs = endTimeMsecs - currentMsecs
      in max (if 0 < sint deltaMsecs then min (sint deltaMsecs) APP_END_TIMER_INTERVAL_MAX else 0)
             APP_END_TIMER_INTERVAL_MIN)"

definition updateAppEndTimer :: "env \<Rightarrow> state \<Rightarrow> state" where
  "updateAppEndTimer e s =
     (let endTimeMsecs :: 64 word =
            (case query e SqlSelectMinEndApp sqlSelectMinEndApp s of
               Some (Some t) \<Rightarrow> word_of_int t
             | _ \<Rightarrow> 0)
      in if endTimeMsecs \<noteq> 0
         then s\<lparr>m_appEndTimer :=
                  Some (appEndTimerInterval endTimeMsecs (word_of_int (currentMSecs e)))\<rparr>
         else s\<lparr>m_appEndTimer := None\<rparr>)"

subsection \<open>Driver synchronisation\<close>

definition updateDriverConf :: "env \<Rightarrow> bool \<Rightarrow> state \<Rightarrow> bool \<times> state" where
  "updateDriverConf e onlyFlags s =
     (case writeConfBuf e onlyFlags (sqliteDb s) of
        None \<Rightarrow> (False, showErrorMessage s)
      | Some driveMask \<Rightarrow>
          let s1 = emit (WriteConf onlyFlags) s
          in if \<not> driverWriteConf e onlyFlags then (False, showErrorMessage s1)
             else (True, s1\<lparr>m_driveMask := driveMask\<rparr>))"

definition updateDriverUpdateApp :: "env \<Rightarrow> App \<Rightarrow> bool \<Rightarrow> state \<Rightarrow> bool \<times> state" where
  "updateDriverUpdateApp e a remove s =
     (case writeAppEntry e a of
        None \<Rightarrow> (False, showErrorMessage s)
      | Some driveMask \<Rightarrow>
          let s1 = emit (WriteApp a remove) s
          in if \<not> driverWriteApp e a remove then (False, showErrorMessage s1)
             else (True, s1\<lparr>m_driveMask := m_driveMask s1 OR (if remove then 0 else driveMask)\<rparr>))"

definition updateDriverDeleteApp :: "env \<Rightarrow> string \<Rightarrow> state \<Rightarrow> bool \<times> state" where
  "updateDriverDeleteApp e p s = updateDriverUpdateApp e ((newApp e)\<lparr>appPath := p\<rparr>) True s"

definition updateDriverUpdateAppConf :: "env \<Rightarrow> App \<Rightarrow> state \<Rightarrow> bool \<times> state" where
  "updateDriverUpdateAppConf e a s =
     (if isWildcard a then updateDriverConf e False s else updateDriverUpdateApp e a False s)"

subsection \<open>Add, update, delete\<close>

definition appIdByPath :: "env \<Rightarrow> string \<Rightarrow> state \<Rightarrow> int" where
  "appIdByPath e p s =
     (case query e SqlSelectAppIdByPath (sqlSelectAppIdByPath p) s of
        Some (Some i) \<Rightarrow> i
      | _ \<Rightarrow> 0)"

text \<open>The result of the alert statement is not looked at: \<^verbatim>\<open>executeEx\<close> gets no \<^verbatim>\<open>&ok\<close>.\<close>

definition addOrUpdateApp :: "env \<Rightarrow> App \<Rightarrow> state \<Rightarrow> bool \<times> state" where
  "addOrUpdateApp e a s =
     (case appGroupAt e (groupIndex a) of
        None \<Rightarrow> (False, s)
      | Some gid \<Rightarrow>
          let s1 = beginTransaction s;
              (appIdVar, s2) =
                 executeEx e SqlUpsertApp (\<lambda>d. Some (sqlUpsertApp gid a (currentMSecs e) d)) s1;
              ok = (appIdVar \<noteq> None);
              s3 = (case appIdVar of
                      None \<Rightarrow> s2
                    | Some i \<Rightarrow>
                        snd (if alerted a
                             then executeEx e SqlInsertAppAlert (\<lambda>d. stepDone (sqlInsertAppAlert i d)) s2
                             else executeEx e SqlDeleteAppAlert (\<lambda>d. stepDone (sqlDeleteAppAlert i d)) s2));
              s4 = snd (commitTransaction ok s3)
          in if ok
             then (ok, emitAppChanged (if endTime a \<noteq> None then updateAppEndTimer e s4 else s4))
             else (ok, s4))"

definition addApp :: "env \<Rightarrow> App \<Rightarrow> state \<Rightarrow> bool \<times> state" where
  "addApp e a s =
     (case addOrUpdateApp e a s of
        (False, s') \<Rightarrow> (False, s')
      | (True, s') \<Rightarrow> (True, snd (updateDriverUpdateAppConf e a s')))"

definition logBlockedApp :: "env \<Rightarrow> string \<Rightarrow> bool \<Rightarrow> state \<Rightarrow> state" where
  "logBlockedApp e logPath logBlockedFlag s =
     (let originPath = logPath;
          p = normalizePath e originPath
      in if appIdByPath e p s > 0 then s
         else case addOrUpdateApp e
                ((newApp e)\<lparr>blocked := logBlockedFlag, alerted := True, groupIndex := 0,
                   appOriginPath := originPath, appPath := p,
                   appName := appNameOf e originPath\<rparr>) s of
                (ok, s') \<Rightarrow> if ok then emitAppAlerted s' else s')"

definition deleteApp :: "env \<Rightarrow> int \<Rightarrow> bool \<Rightarrow> state \<Rightarrow> bool \<times> bool \<times> state" where
  "deleteApp e i isWild s =
     (let s1 = beginTransaction s;
          (resList, s2) = executeEx e SqlDeleteApp (sqlDeleteApp i) s1;
          (ok, s3) = (case resList of
                        None \<Rightarrow> (False, s2)
                      | Some _ \<Rightarrow>
                          (case executeEx e SqlDeleteAppAlert (\<lambda>d. stepDone (sqlDeleteAppAlert i d)) s2 of
                             (r, s') \<Rightarrow> (r \<noteq> None, s')));
          s4 = snd (commitTransaction ok s3)
      in case (ok, resList) of
           (True, Some (p, w)) \<Rightarrow>
             (if w then (True, True, emitAppChanged s4)
              else (True, isWild, emitAppChanged (snd (updateDriverDeleteApp e (columnText p) s4))))
         | _ \<Rightarrow> (False, isWild, s4))"

fun deleteAppsLoop :: "env \<Rightarrow> int list \<Rightarrow> bool \<Rightarrow> state \<Rightarrow> bool \<times> state" where
  "deleteAppsLoop e [] isWild s = (isWild, s)"
| "deleteAppsLoop e (i # is) isWild s =
     (case deleteApp e i isWild s of (_, isWild', s') \<Rightarrow> deleteAppsLoop e is isWild' s')"

definition deleteApps :: "env \<Rightarrow> int list \<Rightarrow> state \<Rightarrow> state" where
  "deleteApps e appIdList s =
     (case deleteAppsLoop e appIdList False s of
        (isWild, s') \<Rightarrow> if isWild then snd (updateDriverConf e False s') else s')"


definition updateApp :: "env \<Rightarrow> App \<Rightarrow> state \<Rightarrow> bool \<times> state" where
  "updateApp e a s =
     (case appGroupAt e (groupIndex a) of
        None \<Rightarrow> (False, s)
      | Some gid \<Rightarrow>
          let s1 = beginTransaction s;
              (r1, s2) = executeEx e SqlUpdateApp
                           (\<lambda>d. case sqlUpdateApp gid a d of
                                  None \<Rightarrow> None
                                | Some d' \<Rightarrow> stepDone d') s1;
              (ok, s3) = (if r1 \<noteq> None
                          then (case executeEx e SqlDeleteAppAlert
                                       (\<lambda>d. stepDone (sqlDeleteAppAlert (appId a) d)) s2 of
                                  (r2, s') \<Rightarrow> (r2 \<noteq> None, s'))
                          else (False, s2));
              s4 = snd (commitTransaction ok s3)
          in if ok
             then (ok, snd (updateDriverUpdateAppConf e a
                              (emitAppUpdated
                                 (if endTime a \<noteq> None then updateAppEndTimer e s4 else s4))))
             else (ok, s4))"

subsection \<open>Narrow updates\<close>

definition loadAppById :: "env \<Rightarrow> App \<Rightarrow> state \<Rightarrow> App option" where
  "loadAppById e a s =
     (case query e SqlSelectAppById (sqlSelectAppById (appId a)) s of
        None \<Rightarrow> None
      | Some [] \<Rightarrow> None
      | Some ((gi, r) # _) \<Rightarrow> Some (fillApp (sqliteDb s) gi r a))"

definition prepareAppBlocked :: "App \<Rightarrow> bool \<Rightarrow> bool \<Rightarrow> bool \<times> App" where
  "prepareAppBlocked a b k =
     (let wasAlerted = alerted a;
          a1 = a\<lparr>alerted := False\<rparr>
      in if \<not> wasAlerted \<and> blocked a1 = b \<and> killProcess a1 = k then (False, a1)
         else (True, a1\<lparr>blocked := b, killProcess := k\<rparr>))"

definition saveAppBlocked :: "env \<Rightarrow> App \<Rightarrow> state \<Rightarrow> bool \<times> state" where
  "saveAppBlocked e a s =
     (let s1 = beginTransaction s;
          (r1, s2) = executeEx e SqlUpdateAppBlocked
                       (\<lambda>d. stepDone (sqlUpdateAppBlocked (appId a) (blocked a) (killProcess a) d)) s1;
          (ok, s3) = (if r1 \<noteq> None
                      then (case executeEx e SqlDeleteAppAlert
                                   (\<lambda>d. stepDone (sqlDeleteAppAlert (appId a) d)) s2 of
                              (r2, s') \<Rightarrow> (r2 \<noteq> None, s'))
                      else (False, s2));
          s4 = snd (commitTransaction ok s3)
      in if ok then (ok, emitAppUpdated s4) else (ok, s4))"

definition updateAppBlocked ::
  "env \<Rightarrow> int \<Rightarrow> bool \<Rightarrow> bool \<Rightarrow> bool \<Rightarrow> state \<Rightarrow> bool \<times> bool \<times> state" where
  "updateAppBlocked e i b k isWild s =
     (case loadAppById e ((newApp e)\<lparr>appId := i\<rparr>) s of
        None \<Rightarrow> (False, isWild, s)
      | Some a0 \<Rightarrow>
          (case prepareAppBlocked a0 b k of
             (False, _) \<Rightarrow> (False, isWild, s)
           | (True, a) \<Rightarrow>
               (case saveAppBlocked e a s of
                  (False, s') \<Rightarrow> (False, isWild, s')
                | (True, s') \<Rightarrow>
                    if isWildcard a then (True, True, s')
                    else (True, isWild, snd (updateDriverUpdateApp e a False s')))))"



definition updateAppName :: "env \<Rightarrow> int \<Rightarrow> string \<Rightarrow> state \<Rightarrow> bool \<times> state" where
  "updateAppName e i n s =
     (case executeEx e SqlUpdateAppName (\<lambda>d. stepDone (sqlUpdateAppName i n d)) s of
        (r, s1) \<Rightarrow>
          (case checkEndTransaction (r \<noteq> None) s1 of
             (ok, s2) \<Rightarrow> if ok then (ok, emitAppUpdated s2) else (ok, s2)))"

subsection \<open>Expiry\<close>

text \<open>
  \<^verbatim>\<open>updateAppEndTimes\<close> steps through the rows that \<^verbatim>\<open>sqlSelectEndedApps\<close> selects at the
  current time and runs \<^verbatim>\<open>updateApp\<close> on each with \<^verbatim>\<open>blocked = true\<close> and
  \<^verbatim>\<open>killProcess = false\<close>; the rows are those selected when the statement starts.
\<close>

fun updateAppEndTimesLoop :: "env \<Rightarrow> App list \<Rightarrow> state \<Rightarrow> state" where
  "updateAppEndTimesLoop e [] s = s"
| "updateAppEndTimesLoop e (a # as) s =
     updateAppEndTimesLoop e as (snd (updateApp e (a\<lparr>blocked := True, killProcess := False\<rparr>) s))"

definition updateAppEndTimes :: "env \<Rightarrow> state \<Rightarrow> state" where
  "updateAppEndTimes e s =
     (case query e SqlSelectEndedApps (sqlSelectEndedApps (currentMSecs e)) s of
        None \<Rightarrow> s
      | Some rows \<Rightarrow>
          updateAppEndTimer e
            (updateAppEndTimesLoop e
               (map (\<lambda>(gi, r). fillApp (sqliteDb s) gi r (newApp e)) rows) s))"

section \<open>Effects of the operations, in closed form\<close>

text \<open>
  The events of one driver synchronisation, read off \<^verbatim>\<open>updateDriverConf\<close>,
  \<^verbatim>\<open>updateDriverUpdateApp\<close> and \<^verbatim>\<open>updateDriverUpdateAppConf\<close>: a failed encode shows the
  error and writes nothing; a write that the driver refuses shows the error after it.
\<close>

definition driverConfEvents :: "env \<Rightarrow> bool \<Rightarrow> database \<Rightarrow> event list" where
  "driverConfEvents e onlyFlags d =
     (case writeConfBuf e onlyFlags d of
        None \<Rightarrow> [ShowErrorMessage]
      | Some _ \<Rightarrow> WriteConf onlyFlags # (if driverWriteConf e onlyFlags then [] else [ShowErrorMessage]))"

definition driverAppEvents :: "env \<Rightarrow> App \<Rightarrow> bool \<Rightarrow> event list" where
  "driverAppEvents e a remove =
     (case writeAppEntry e a of
        None \<Rightarrow> [ShowErrorMessage]
      | Some _ \<Rightarrow> WriteApp a remove # (if driverWriteApp e a remove then [] else [ShowErrorMessage]))"

definition driverUpdateEvents :: "env \<Rightarrow> App \<Rightarrow> database \<Rightarrow> event list" where
  "driverUpdateEvents e a d =
     (if isWildcard a then driverConfEvents e False d else driverAppEvents e a False)"

text \<open>When every statement of a transaction succeeds, for each of the transactions.\<close>

definition updateAppOk :: "env \<Rightarrow> int \<Rightarrow> App \<Rightarrow> database \<Rightarrow> bool" where
  "updateAppOk e gid a d =
     (stmt_ok e SqlUpdateApp \<and> sqlUpdateApp gid a d \<noteq> None \<and> stmt_ok e SqlDeleteAppAlert)"


definition saveAppBlockedOk :: "env \<Rightarrow> bool" where
  "saveAppBlockedOk e = (stmt_ok e SqlUpdateAppBlocked \<and> stmt_ok e SqlDeleteAppAlert)"

text \<open>
  What a successful upsert leaves in the store: the alert statement takes effect only
  if the engine runs it.
\<close>

definition upsertStore :: "env \<Rightarrow> int \<Rightarrow> App \<Rightarrow> database \<Rightarrow> database" where
  "upsertStore e gid a d =
     (case sqlUpsertApp gid a (currentMSecs e) d of
        (i, d1) \<Rightarrow>
          if alerted a then (if stmt_ok e SqlInsertAppAlert then sqlInsertAppAlert i d1 else d1)
          else (if stmt_ok e SqlDeleteAppAlert then sqlDeleteAppAlert i d1 else d1))"




text \<open>The kinds of driver write: a single-entry removal, any single-entry write, a snapshot.\<close>

fun isRemovalPush :: "event \<Rightarrow> bool" where
  "isRemovalPush (WriteApp a r) = r"
| "isRemovalPush _ = False"

fun isEntryPush :: "event \<Rightarrow> bool" where
  "isEntryPush (WriteApp a r) = True"
| "isEntryPush _ = False"

fun isSnapshotPush :: "event \<Rightarrow> bool" where
  "isSnapshotPush (WriteConf f) = True"
| "isSnapshotPush _ = False"










section \<open>Notions used in the properties\<close>

text \<open>The range of \<^verbatim>\<open>qint64\<close>, in which SQLite integers and the clock lie.\<close>

definition int64 :: "int \<Rightarrow> bool" where
  "int64 x = (- (2 ^ 63) \<le> x \<and> x < 2 ^ 63)"

text \<open>
  The specification's words for the scheduler: the end times of the rows with
  \<^verbatim>\<open>endTime != 0 and blocked == false\<close>, and the interval
  \<^verbatim>\<open>max(clamp(deadline - now, 0, 1_day), 100ms)\<close>.
\<close>

definition pendingEndTimeSet :: "database \<Rightarrow> int set" where
  "pendingEndTimeSet d =
     {t. \<exists>r\<in>set (app d). t_end_time r = Some t \<and> t \<noteq> 0 \<and> \<not> t_blocked r}"

text \<open>The pending end times and their distance from the clock fit \<^verbatim>\<open>qint64\<close>.\<close>

definition endTimesFit :: "env \<Rightarrow> database \<Rightarrow> bool" where
  "endTimesFit e d = (\<forall>t\<in>pendingEndTimeSet d. int64 t \<and> int64 (t - currentMSecs e))"

definition clamp :: "int \<Rightarrow> int \<Rightarrow> int \<Rightarrow> int" where
  "clamp x lo hi = max lo (min x hi)"

definition specTimerInterval :: "int \<Rightarrow> int \<Rightarrow> int" where
  "specTimerInterval deadline now = max (clamp (deadline - now) 0 (24 * 60 * 60 * 1000)) 100"

text \<open>\<^verbatim>\<open>app_id\<close> is the primary key of table \<^verbatim>\<open>app\<close>.\<close>

definition primaryKey :: "database \<Rightarrow> bool" where
  "primaryKey d = distinct (map t_app_id (app d))"







text \<open>
  \<^verbatim>\<open>path\<close> is unique among the rows that have one, as \<^verbatim>\<open>ON CONFLICT(path)\<close> requires of
  the schema.
\<close>

definition uniquePaths :: "database \<Rightarrow> bool" where
  "uniquePaths d = distinct (filter (\<lambda>p. p \<noteq> None) (map t_path (app d)))"

text \<open>
  A store that fits the schema and the configuration: \<^verbatim>\<open>app_id\<close> is a key, paths are
  unique and never the empty string (the manager binds NULL for an empty path), and the
  group of every row is in \<^verbatim>\<open>app_group\<close> at the index where the configuration has it.
\<close>

definition consistentStore :: "env \<Rightarrow> database \<Rightarrow> bool" where
  "consistentStore e d =
     (primaryKey d \<and> uniquePaths d
      \<and> list_all (\<lambda>r. t_path r \<noteq> Some []
                      \<and> (case app_group d (t_app_group_id r) of
                            None \<Rightarrow> False
                          | Some gi \<Rightarrow> appGroupAt e gi = Some (t_app_group_id r))) (app d))"

text \<open>The WHERE clause of \<^verbatim>\<open>sqlSelectEndedApps\<close>: \<^verbatim>\<open>end_time <= ?1 AND blocked = 0\<close>.\<close>

definition expired :: "int \<Rightarrow> app_row \<Rightarrow> bool" where
  "expired now r = ((case t_end_time r of None \<Rightarrow> False | Some t \<Rightarrow> t \<le> now) \<and> \<not> t_blocked r)"

text \<open>
  What the expiry leaves of a row: \<^verbatim>\<open>updateApp\<close> writes back the columns \<^verbatim>\<open>fillApp\<close> read,
  with \<^verbatim>\<open>blocked = true\<close>, \<^verbatim>\<open>killProcess = false\<close>, and the \<^verbatim>\<open>appName\<close> and \<^verbatim>\<open>endTime\<close> of
  a default-constructed \<^verbatim>\<open>App\<close>, which \<^verbatim>\<open>fillApp\<close> does not read.
\<close>

definition expireRow :: "app_row \<Rightarrow> app_row" where
  "expireRow r = r\<lparr>t_name := [], t_blocked := True, t_kill_process := False, t_end_time := None\<rparr>"

text \<open>The store after the expiry of the rows with the ids \<open>I\<close>, and of the expired rows.\<close>

definition expireAll :: "int set \<Rightarrow> database \<Rightarrow> database" where
  "expireAll I d =
     d\<lparr>app := map (\<lambda>r. if t_app_id r \<in> I then expireRow r else r) (app d),
       app_alert := app_alert d - I\<rparr>"

text \<open>The entry that \<^verbatim>\<open>updateAppEndTimes\<close> passes to \<^verbatim>\<open>updateApp\<close> for a selected row.\<close>

definition expiryApp :: "env \<Rightarrow> database \<Rightarrow> int \<times> app_row \<Rightarrow> App" where
  "expiryApp e d x = (fillApp d (fst x) (snd x) (newApp e))\<lparr>blocked := True, killProcess := False\<rparr>"

text \<open>Every statement runs and every encode succeeds (the driver may still refuse a write).\<close>

definition healthy :: "env \<Rightarrow> bool" where
  "healthy e = ((\<forall>q. stmt_ok e q) \<and> (\<forall>a. writeAppEntry e a \<noteq> None)
                \<and> (\<forall>f d. writeConfBuf e f d \<noteq> None))"

text \<open>A driver write of either kind.\<close>

definition isPush :: "event \<Rightarrow> bool" where
  "isPush ev = (isEntryPush ev \<or> isSnapshotPush ev)"

definition expireRows :: "int \<Rightarrow> database \<Rightarrow> database" where
  "expireRows now d =
     d\<lparr>app := map (\<lambda>r. if expired now r then expireRow r else r) (app d),
       app_alert := app_alert d - t_app_id ` {r \<in> set (app d). expired now r}\<rparr>"

section \<open>Sample data\<close>

text \<open>
  A store with one group (id 1 at index 0), an environment in which every statement,
  encode and driver write succeeds and the clock reads 400, and rows to evaluate the
  operations on.
\<close>

definition exApp :: App where
  "exApp = \<lparr>isWildcard = False, useGroupPerm = True, applyChild = False, killChild = False,
     lanOnly = False, logBlocked = False, logConn = False, blocked = False,
     killProcess = False, alerted = False, groupIndex = 0, acceptZones = 0, rejectZones = 0,
     appId = 0, appOriginPath = [], appPath = [], appName = [], endTime = None\<rparr>"

definition exEnv :: env where
  "exEnv = \<lparr>stmt_ok = (\<lambda>q. True), appGroupAt = (\<lambda>i. if i = 0 then Some 1 else None),
     appInit = exApp, currentMSecs = 400, normalizePath = (\<lambda>p. p), appNameOf = (\<lambda>p. p),
     isDriveFilePath = (\<lambda>p. True), fileExists = (\<lambda>p. True),
     writeAppEntry = (\<lambda>a. Some 2), writeConfBuf = (\<lambda>f d. Some 4),
     driverWriteApp = (\<lambda>a r. True), driverWriteConf = (\<lambda>f. True)\<rparr>"

definition exRow :: "int \<Rightarrow> string \<Rightarrow> bool \<Rightarrow> int option \<Rightarrow> app_row" where
  "exRow i p b t = \<lparr>t_app_id = i, t_app_group_id = 1, t_origin_path = p,
     t_path = Some p, t_name = ''app'',
     t_is_wildcard = False, t_use_group_perm = True, t_apply_child = False,
     t_kill_child = False, t_lan_only = False, t_log_blocked = False, t_log_conn = False,
     t_blocked = b, t_kill_process = False, t_accept_zones = 0, t_reject_zones = 0,
     t_end_time = t, t_creat_time = 0\<rparr>"

definition exDb :: "app_row list \<Rightarrow> database" where
  "exDb rows = \<lparr>app = rows, app_alert = {}, app_group = [1 \<mapsto> 0]\<rparr>"

definition exState :: "database \<Rightarrow> state" where
  "exState d = \<lparr>sqliteDb = d, txn = None, m_driveMask = 1, m_appEndTimer = None, trace = []\<rparr>"

definition exRows3 :: "app_row list" where
  "exRows3 = [exRow 1 ''a'' False (Some 1000), exRow 2 ''b'' False (Some 2000),
              exRow 3 ''c'' False (Some 3000)]"

definition exRows8 :: "app_row list" where
  "exRows8 = [exRow 1 ''a'' False None, exRow 2 ''b'' False None, exRow 3 ''c'' False None,
              exRow 4 ''d'' False None, exRow 5 ''e'' False None, exRow 6 ''f'' False None,
              exRow 7 ''g'' False None, exRow 8 ''h'' False None]"

definition exWildRow :: app_row where
  "exWildRow = (exRow 2 ''b'' False None)\<lparr>t_is_wildcard := True, t_path := None\<rparr>"

text \<open>An environment whose engine fails \<^verbatim>\<open>sqlInsertAppAlert\<close>, and an alerted entry.\<close>

definition exEnvNoAlertInsert :: env where
  "exEnvNoAlertInsert = exEnv\<lparr>stmt_ok := (\<lambda>q. q \<noteq> SqlInsertAppAlert)\<rparr>"

definition exAlertedApp :: App where
  "exAlertedApp = exApp\<lparr>alerted := True, appOriginPath := ''C:/a.exe'', appPath := ''c:/a.exe''\<rparr>"

text \<open>A store whose only entry, id 1, is blocked and alerted.\<close>

definition exAlertedState :: state where
  "exAlertedState = exState ((exDb [exRow 1 ''a'' True None])\<lparr>app_alert := {1}\<rparr>)"



text \<open>An entry for the path \<^verbatim>\<open>c:/a.exe\<close> with a given name and blocked flag.\<close>

definition exNamedApp :: "string \<Rightarrow> bool \<Rightarrow> App" where
  "exNamedApp n b = exApp\<lparr>appOriginPath := ''C:/a.exe'', appPath := ''c:/a.exe'', appName := n,
     blocked := b\<rparr>"


text \<open>The sample environment with the clock at \<open>t\<close>.\<close>

definition exEnvAt :: "int \<Rightarrow> env" where
  "exEnvAt t = exEnv\<lparr>currentMSecs := t\<rparr>"



section \<open>Properties\<close>

subsection \<open>The expiry timer\<close>

lemma sint_word_of_int64: "int64 x \<Longrightarrow> sint (word_of_int x :: 64 word) = x"
  by (simp add: int64_def sint_sbintrunc' signed_take_bit_int_eq_self)

lemma word_of_int64_eq_0: "int64 x \<Longrightarrow> (word_of_int x :: 64 word) = 0 \<longleftrightarrow> x = 0"
  by (metis sint_word_of_int64 sint_0 word_of_int_0)

lemma sint_diff64:
  "int64 (x - y) \<Longrightarrow> sint (word_of_int x - word_of_int y :: 64 word) = x - y"
  using sint_word_of_int64 [of "x - y"] by simp

lemma foldr_min_Min: "foldr min ts (t::int) = Min (set (t # ts))"
proof (induction ts)
  case Nil
  show ?case by simp
next
  case (Cons a ts)
  have "Min (set (t # a # ts)) = Min (insert a (set (t # ts)))"
    by (simp add: insert_commute)
  also have "\<dots> = min a (Min (set (t # ts)))"
    by (rule Min_insert) simp_all
  finally show ?case using Cons.IH by simp
qed

lemma set_pendingEndTimes:
  "set (pendingEndTimes d) = {t. \<exists>r\<in>set (app d). t_end_time r = Some t \<and> t \<noteq> 0 \<and> \<not> t_blocked r}"
  by (auto simp: pendingEndTimes_def split: option.splits if_splits)

lemma sqlSelectMinEndApp_Min:
  "sqlSelectMinEndApp d =
     (if set (pendingEndTimes d) = {} then None else Some (Min (set (pendingEndTimes d))))"
  by (cases "pendingEndTimes d") (simp_all add: sqlSelectMinEndApp_def foldr_min_Min del: Min_insert)

lemma appEndTimerInterval_bounds:
  "APP_END_TIMER_INTERVAL_MIN \<le> appEndTimerInterval x y \<and> appEndTimerInterval x y \<le> APP_END_TIMER_INTERVAL_MAX"
  by (simp add: appEndTimerInterval_def Let_def APP_END_TIMER_INTERVAL_MIN_def APP_END_TIMER_INTERVAL_MAX_def)


lemma set_pendingEndTimes': "set (pendingEndTimes d) = pendingEndTimeSet d"
  by (simp add: set_pendingEndTimes pendingEndTimeSet_def)

lemma appEndTimerInterval_spec:
  assumes "int64 (t - now)"
  shows "appEndTimerInterval (word_of_int t) (word_of_int now) = specTimerInterval t now"
  using assms
  by (auto simp: appEndTimerInterval_def Let_def sint_diff64 specTimerInterval_def clamp_def
      APP_END_TIMER_INTERVAL_MIN_def APP_END_TIMER_INTERVAL_MAX_def)

lemma updateAppEndTimer_formula:
  assumes q: "stmt_ok e SqlSelectMinEndApp" and fit: "endTimesFit e (sqliteDb s)"
  shows "m_appEndTimer (updateAppEndTimer e s) =
           (if pendingEndTimeSet (sqliteDb s) = {} then None
            else Some (specTimerInterval (Min (pendingEndTimeSet (sqliteDb s))) (currentMSecs e)))"
proof -
  let ?P = "pendingEndTimeSet (sqliteDb s)"
  let ?now = "currentMSecs e"
  have rng: "\<forall>t\<in>?P. int64 t \<and> int64 (t - ?now)"
    using fit by (simp add: endTimesFit_def)
  have fin: "finite ?P"
    unfolding set_pendingEndTimes' [symmetric] by simp
  have sel: "query e SqlSelectMinEndApp sqlSelectMinEndApp s =
               Some (if ?P = {} then None else Some (Min ?P))"
    using q by (simp add: query_def sqlSelectMinEndApp_Min set_pendingEndTimes')
  show ?thesis
  proof (cases "?P = {}")
    case True
    then show ?thesis by (simp add: updateAppEndTimer_def sel)
  next
    case False
    then have mem: "Min ?P \<in> ?P" using fin by (rule_tac Min_in)
    then have r64: "int64 (Min ?P)" and d64: "int64 (Min ?P - ?now)"
      using rng by blast+
    have "\<forall>t\<in>?P. t \<noteq> 0" by (auto simp: pendingEndTimeSet_def)
    with mem have "Min ?P \<noteq> 0" by blast
    then have nz: "(word_of_int (Min ?P) :: 64 word) \<noteq> 0"
      using r64 by (simp add: word_of_int64_eq_0)
    show ?thesis
      using False nz by (simp add: updateAppEndTimer_def sel appEndTimerInterval_spec [OF d64])
  qed
qed

text \<open>
  C5. Whenever the expiry timer is recomputed (the query running, the stored end times
  and their distance from the clock within \<^verbatim>\<open>qint64\<close>): the timer is stopped when no row
  has \<^verbatim>\<open>end_time != 0\<close> and \<^verbatim>\<open>blocked = 0\<close>; else it is started with
  \<open>max (clamp (minEndTime - now) 0 day) 100\<close> milliseconds. An armed interval is never
  below 100 nor above 24 * 60 * 60 * 1000, and a deadline in the past arms 100.
\<close>

theorem updateAppEndTimer_interval:
  assumes q: "stmt_ok e SqlSelectMinEndApp"
    and fit: "endTimesFit e (sqliteDb s)"
  shows "m_appEndTimer (updateAppEndTimer e s) =
           (if pendingEndTimeSet (sqliteDb s) = {} then None
            else Some (specTimerInterval (Min (pendingEndTimeSet (sqliteDb s))) (currentMSecs e)))
         \<and> (\<forall>i. m_appEndTimer (updateAppEndTimer e s) = Some i \<longrightarrow> 100 \<le> i \<and> i \<le> 24 * 60 * 60 * 1000)
         \<and> (pendingEndTimeSet (sqliteDb s) \<noteq> {}
              \<and> Min (pendingEndTimeSet (sqliteDb s)) \<le> currentMSecs e
            \<longrightarrow> m_appEndTimer (updateAppEndTimer e s) = Some 100)"
proof -
  let ?P = "pendingEndTimeSet (sqliteDb s)"
  let ?now = "currentMSecs e"
  note formula = updateAppEndTimer_formula [OF q fit]
  have bounds: "\<forall>i. m_appEndTimer (updateAppEndTimer e s) = Some i \<longrightarrow> 100 \<le> i \<and> i \<le> 24 * 60 * 60 * 1000"
    using appEndTimerInterval_bounds
    by (auto simp: updateAppEndTimer_def Let_def APP_END_TIMER_INTERVAL_MIN_def
        APP_END_TIMER_INTERVAL_MAX_def split: if_splits)
  have past: "?P \<noteq> {} \<and> Min ?P \<le> ?now \<longrightarrow> m_appEndTimer (updateAppEndTimer e s) = Some 100"
    using formula by (auto simp: specTimerInterval_def clamp_def)
  from formula bounds past show ?thesis by blast
qed

lemma exRows3_pending: "pendingEndTimeSet (exDb exRows3) = {1000, 2000, 3000}"
  unfolding set_pendingEndTimes' [symmetric]
  by (simp add: pendingEndTimes_def exDb_def exRows3_def exRow_def)

theorem updateAppEndTimer_interval_witness:
  "stmt_ok exEnv SqlSelectMinEndApp
   \<and> endTimesFit exEnv (sqliteDb (exState (exDb exRows3)))
   \<and> m_appEndTimer (updateAppEndTimer exEnv (exState (exDb exRows3))) = Some 600"
proof -
  have q: "stmt_ok exEnv SqlSelectMinEndApp" by (simp add: exEnv_def)
  have rng: "endTimesFit exEnv (sqliteDb (exState (exDb exRows3)))"
    by (simp add: endTimesFit_def exState_def exRows3_pending int64_def exEnv_def)
  have "m_appEndTimer (updateAppEndTimer exEnv (exState (exDb exRows3))) = Some 600"
    using updateAppEndTimer_interval [OF q rng]
    by (simp add: exState_def exRows3_pending specTimerInterval_def clamp_def exEnv_def)
  with q rng show ?thesis by blast
qed

subsection \<open>Effects of the primitive steps\<close>

lemma emit_simps:
  "sqliteDb (emit ev s) = sqliteDb s" "txn (emit ev s) = txn s"
  "m_driveMask (emit ev s) = m_driveMask s" "m_appEndTimer (emit ev s) = m_appEndTimer s"
  "trace (emit ev s) = trace s @ [ev]"
  by (simp_all add: emit_def)

lemma updateAppEndTimer_simps:
  "sqliteDb (updateAppEndTimer e s) = sqliteDb s" "txn (updateAppEndTimer e s) = txn s"
  "m_driveMask (updateAppEndTimer e s) = m_driveMask s"
  "trace (updateAppEndTimer e s) = trace s"
  by (simp_all add: updateAppEndTimer_def Let_def)

lemma updateDriverUpdateApp_db:
  "sqliteDb (snd (updateDriverUpdateApp e a r s)) = sqliteDb s"
  by (simp add: updateDriverUpdateApp_def showErrorMessage_def emit_simps Let_def split: option.splits)

lemma updateDriverConf_db:
  "sqliteDb (snd (updateDriverConf e f s)) = sqliteDb s"
  by (simp add: updateDriverConf_def showErrorMessage_def emit_simps Let_def split: option.splits)

subsection \<open>The drive mask\<close>

text \<open>
  C9, as amended. After a successful full-snapshot push the stored drive mask is the mask
  that encode computed, replacing the previous one. After a successful single-entry push
  the stored mask is the previous mask OR the mask of that encode, and after a successful
  removal push it is the previous mask.
\<close>

theorem driveMask_after_push:
  "(fst (updateDriverConf e onlyFlags s) \<longrightarrow>
      writeConfBuf e onlyFlags (sqliteDb s) = Some (m_driveMask (snd (updateDriverConf e onlyFlags s))))
   \<and> (fst (updateDriverUpdateApp e a False s) \<longrightarrow>
        (\<exists>m. writeAppEntry e a = Some m
           \<and> m_driveMask (snd (updateDriverUpdateApp e a False s)) = m_driveMask s OR m))
   \<and> (fst (updateDriverUpdateApp e a True s) \<longrightarrow>
        m_driveMask (snd (updateDriverUpdateApp e a True s)) = m_driveMask s)"
  by (simp add: updateDriverConf_def updateDriverUpdateApp_def showErrorMessage_def emit_simps
      Let_def split: option.splits)

theorem driveMask_after_push_witness:
  "fst (updateDriverConf exEnv False (exState (exDb [])))
   \<and> m_driveMask (snd (updateDriverConf exEnv False (exState (exDb [])))) = 4
   \<and> fst (updateDriverUpdateApp exEnv exApp False (exState (exDb [])))
   \<and> m_driveMask (snd (updateDriverUpdateApp exEnv exApp False (exState (exDb [])))) = 3
   \<and> fst (updateDriverUpdateApp exEnv exApp True (exState (exDb [])))
   \<and> m_driveMask (snd (updateDriverUpdateApp exEnv exApp True (exState (exDb [])))) = 1"
  using driveMask_after_push [of exEnv False "exState (exDb [])" exApp]
  by (simp add: updateDriverConf_def updateDriverUpdateApp_def emit_simps Let_def exEnv_def
      exState_def)

text \<open>
  C9 as stated fails for a single-entry push: with the stored mask 1 and an encode that
  computes 2, the stored mask after the successful push is 3, not 2.
\<close>

theorem driveMask_replaced_counterexample:
  "fst (updateDriverUpdateApp exEnv exApp False (exState (exDb [])))
   \<and> writeAppEntry exEnv exApp = Some 2
   \<and> m_driveMask (exState (exDb [])) = 1
   \<and> m_driveMask (snd (updateDriverUpdateApp exEnv exApp False (exState (exDb [])))) = 3
   \<and> m_driveMask (snd (updateDriverUpdateApp exEnv exApp False (exState (exDb [])))) \<noteq> 2"
  by (simp add: updateDriverUpdateApp_def emit_simps Let_def exEnv_def exState_def)



subsection \<open>A blocked-state update that changes nothing\<close>





subsection \<open>Effects of the operations\<close>

lemma updateDriverConf_trace:
  "trace (snd (updateDriverConf e f s)) = trace s @ driverConfEvents e f (sqliteDb s)"
  by (simp add: updateDriverConf_def driverConfEvents_def showErrorMessage_def emit_simps Let_def
      split: option.splits)

lemma updateDriverUpdateApp_trace:
  "trace (snd (updateDriverUpdateApp e a r s)) = trace s @ driverAppEvents e a r"
  by (simp add: updateDriverUpdateApp_def driverAppEvents_def showErrorMessage_def emit_simps Let_def
      split: option.splits)

lemma updateDriverUpdateAppConf_db:
  "sqliteDb (snd (updateDriverUpdateAppConf e a s)) = sqliteDb s"
  by (simp add: updateDriverUpdateAppConf_def updateDriverConf_db updateDriverUpdateApp_db)

lemma updateDriverUpdateAppConf_trace:
  "trace (snd (updateDriverUpdateAppConf e a s)) = trace s @ driverUpdateEvents e a (sqliteDb s)"
  by (simp add: updateDriverUpdateAppConf_def driverUpdateEvents_def updateDriverConf_trace
      updateDriverUpdateApp_trace)

lemma updateApp_null_group:
  "appGroupAt e (groupIndex a) = None \<Longrightarrow> updateApp e a s = (False, s)"
  by (simp add: updateApp_def)

lemma updateApp_fst:
  "appGroupAt e (groupIndex a) = Some gid \<Longrightarrow>
   fst (updateApp e a s) = updateAppOk e gid a (sqliteDb s)"
  by (auto simp: updateApp_def updateAppOk_def beginTransaction_def executeEx_def stepDone_def
      emit_simps Let_def split: option.splits prod.splits)

lemma updateApp_db:
  "appGroupAt e (groupIndex a) = Some gid \<Longrightarrow>
   sqliteDb (snd (updateApp e a s)) =
     (if updateAppOk e gid a (sqliteDb s)
      then sqlDeleteAppAlert (appId a) (the (sqlUpdateApp gid a (sqliteDb s)))
      else sqliteDb s)"
  by (auto simp: updateApp_def updateAppOk_def beginTransaction_def executeEx_def stepDone_def
      commitTransaction_def endTransaction_def checkEndTransaction_def showErrorMessage_def
      emitAppUpdated_def updateDriverUpdateAppConf_db updateAppEndTimer_simps
      emit_simps Let_def split: option.splits prod.splits)

lemma updateApp_trace:
  "appGroupAt e (groupIndex a) = Some gid \<Longrightarrow>
   trace (snd (updateApp e a s)) = trace s @
     (if updateAppOk e gid a (sqliteDb s)
      then [BeginTransaction, CommitTransaction, EmitAppUpdated]
           @ driverUpdateEvents e a (sqlDeleteAppAlert (appId a) (the (sqlUpdateApp gid a (sqliteDb s))))
      else [BeginTransaction, RollbackTransaction, ShowErrorMessage])"
  by (auto simp: updateApp_def updateAppOk_def beginTransaction_def executeEx_def stepDone_def
      commitTransaction_def endTransaction_def checkEndTransaction_def showErrorMessage_def
      emitAppUpdated_def updateDriverUpdateAppConf_trace updateAppEndTimer_simps
      emit_simps Let_def split: option.splits prod.splits)


lemma addOrUpdateApp_fst:
  "appGroupAt e (groupIndex a) = Some gid \<Longrightarrow> fst (addOrUpdateApp e a s) = stmt_ok e SqlUpsertApp"
  by (auto simp: addOrUpdateApp_def beginTransaction_def executeEx_def stepDone_def
      emit_simps Let_def split: option.splits prod.splits)

lemma addOrUpdateApp_db:
  "appGroupAt e (groupIndex a) = Some gid \<Longrightarrow>
   sqliteDb (snd (addOrUpdateApp e a s)) =
     (if stmt_ok e SqlUpsertApp then upsertStore e gid a (sqliteDb s) else sqliteDb s)"
  by (auto simp: addOrUpdateApp_def upsertStore_def beginTransaction_def executeEx_def stepDone_def
      commitTransaction_def endTransaction_def checkEndTransaction_def showErrorMessage_def
      emitAppChanged_def updateAppEndTimer_simps
      emit_simps Let_def split: option.splits prod.splits)









lemma saveAppBlocked_fst: "fst (saveAppBlocked e a s) = saveAppBlockedOk e"
  by (auto simp: saveAppBlocked_def saveAppBlockedOk_def beginTransaction_def executeEx_def
      stepDone_def emit_simps Let_def split: option.splits prod.splits)

lemma saveAppBlocked_db:
  "sqliteDb (snd (saveAppBlocked e a s)) =
     (if saveAppBlockedOk e
      then sqlDeleteAppAlert (appId a)
             (sqlUpdateAppBlocked (appId a) (blocked a) (killProcess a) (sqliteDb s))
      else sqliteDb s)"
  by (auto simp: saveAppBlocked_def saveAppBlockedOk_def beginTransaction_def executeEx_def
      stepDone_def commitTransaction_def endTransaction_def checkEndTransaction_def
      showErrorMessage_def emitAppUpdated_def emit_simps Let_def split: option.splits prod.splits)


lemma updateAppName_fst: "fst (updateAppName e i n s) = stmt_ok e SqlUpdateAppName"
  by (simp add: updateAppName_def executeEx_def stepDone_def checkEndTransaction_def)

lemma updateAppName_db:
  "sqliteDb (snd (updateAppName e i n s)) =
     (if stmt_ok e SqlUpdateAppName then sqlUpdateAppName i n (sqliteDb s) else sqliteDb s)"
  by (simp add: updateAppName_def executeEx_def stepDone_def checkEndTransaction_def
      showErrorMessage_def emitAppUpdated_def emit_simps)

lemma updateAppName_trace:
  "trace (snd (updateAppName e i n s)) = trace s @
     (if stmt_ok e SqlUpdateAppName then [EmitAppUpdated] else [ShowErrorMessage])"
  by (simp add: updateAppName_def executeEx_def stepDone_def checkEndTransaction_def
      showErrorMessage_def emitAppUpdated_def emit_simps)

lemma updateAppBlocked_db:
  "sqliteDb (snd (snd (updateAppBlocked e i b k w s))) =
     (case loadAppById e ((newApp e)\<lparr>appId := i\<rparr>) s of
        None \<Rightarrow> sqliteDb s
      | Some a0 \<Rightarrow>
          (case prepareAppBlocked a0 b k of
             (False, _) \<Rightarrow> sqliteDb s
           | (True, a) \<Rightarrow> sqliteDb (snd (saveAppBlocked e a s))))"
  by (simp add: updateAppBlocked_def updateDriverUpdateApp_db
      split: option.splits prod.splits bool.splits)


subsection \<open>Commit before synchronisation\<close>














subsection \<open>Driver writes of the delete operations\<close>

text \<open>
  C6, at a batch of eight entries, none a wildcard: \<^verbatim>\<open>deleteApps\<close> starts its flag at
  \<^verbatim>\<open>false\<close> (\<^verbatim>\<open>updateAppsBlocked\<close> starts its own at \<^verbatim>\<open>appIdList.size() > 7\<close>), so the
  batch makes eight single-entry removal writes and no snapshot write.
\<close>

theorem deleteApps_batch_of_eight:
  "length [1, 2, 3, 4, 5, 6, 7, 8 :: int] > 7
   \<and> map t_is_wildcard exRows8 = replicate 8 False
   \<and> length (filter isRemovalPush (trace (deleteApps exEnv [1, 2, 3, 4, 5, 6, 7, 8] (exState (exDb exRows8))))) = 8
   \<and> filter isSnapshotPush (trace (deleteApps exEnv [1, 2, 3, 4, 5, 6, 7, 8] (exState (exDb exRows8)))) = []
   \<and> app (sqliteDb (deleteApps exEnv [1, 2, 3, 4, 5, 6, 7, 8] (exState (exDb exRows8)))) = []"
  by code_simp

text \<open>
  Deleting one entry: a removal write and no snapshot for a non-wildcard entry, one
  snapshot and no single-entry write for a wildcard entry.
\<close>

lemma deleteApps_single_evaluated:
  "length (filter isRemovalPush (trace (deleteApps exEnv [1] (exState (exDb [exRow 1 ''a'' False None, exWildRow]))))) = 1
   \<and> filter isSnapshotPush (trace (deleteApps exEnv [1] (exState (exDb [exRow 1 ''a'' False None, exWildRow])))) = []
   \<and> length (filter isSnapshotPush (trace (deleteApps exEnv [2] (exState (exDb [exRow 1 ''a'' False None, exWildRow]))))) = 1
   \<and> filter isEntryPush (trace (deleteApps exEnv [2] (exState (exDb [exRow 1 ''a'' False None, exWildRow])))) = []"
  by code_simp

subsection \<open>A failing alert statement in the upsert\<close>

text \<open>
  C8, at an upsert of an alerted entry whose \<^verbatim>\<open>sqlInsertAppAlert\<close> fails: the result of
  that statement is not looked at, so the transaction is committed without the alert
  record, the call returns true, the notification is emitted and \<^verbatim>\<open>addApp\<close> goes on to
  the driver.
\<close>

theorem addOrUpdateApp_alert_failure_committed:
  "\<not> stmt_ok exEnvNoAlertInsert SqlInsertAppAlert
   \<and> alerted exAlertedApp
   \<and> fst (addOrUpdateApp exEnvNoAlertInsert exAlertedApp (exState (exDb [])))
   \<and> map t_path (app (sqliteDb (snd (addOrUpdateApp exEnvNoAlertInsert exAlertedApp (exState (exDb []))))))
       = [Some ''c:/a.exe'']
   \<and> app_alert (sqliteDb (snd (addOrUpdateApp exEnvNoAlertInsert exAlertedApp (exState (exDb []))))) = {}
   \<and> trace (snd (addOrUpdateApp exEnvNoAlertInsert exAlertedApp (exState (exDb []))))
       = [BeginTransaction, CommitTransaction, EmitAppChanged]
   \<and> fst (addApp exEnvNoAlertInsert exAlertedApp (exState (exDb [])))
   \<and> trace (snd (addApp exEnvNoAlertInsert exAlertedApp (exState (exDb []))))
       = [BeginTransaction, CommitTransaction, EmitAppChanged, WriteApp exAlertedApp False]"
  by code_simp

subsection \<open>The alerted flag\<close>

text \<open>
  C7 as stated fails for the name-only update: \<^verbatim>\<open>updateAppName\<close> runs
  \<^verbatim>\<open>sqlUpdateAppName\<close> alone, so an alerted entry is still alerted after it.
\<close>

theorem updateAppName_keeps_alert_counterexample:
  "1 \<in> app_alert (sqliteDb exAlertedState)
   \<and> fst (updateAppName exEnv 1 ''renamed'' exAlertedState)
   \<and> map t_name (app (sqliteDb (snd (updateAppName exEnv 1 ''renamed'' exAlertedState)))) = [''renamed'']
   \<and> 1 \<in> app_alert (sqliteDb (snd (updateAppName exEnv 1 ''renamed'' exAlertedState)))"
  by code_simp

lemma newAppId_greater: "r \<in> set rows \<Longrightarrow> t_app_id r < newAppId rows"
  by (induction rows) (auto simp: newAppId_def)

lemma sqlUpsertApp_fresh:
  assumes "sqlSelectAppIdByPath (appPath a) d = None"
  shows "sqlUpsertApp gid a ct d =
           (newAppId (app d), d\<lparr>app := app d @ [insertedRow (newAppId (app d)) gid a ct]\<rparr>)"
  using assms by (simp add: sqlUpsertApp_def sqlSelectAppIdByPath_def pathVar_def)

lemma appIdByPath_none:
  "sqlSelectAppIdByPath p (sqliteDb s) = None \<Longrightarrow> appIdByPath e p s = 0"
  by (simp add: appIdByPath_def query_def)

lemma logBlockedApp_db:
  assumes "sqlSelectAppIdByPath (normalizePath e p) (sqliteDb s) = None"
    and "appGroupAt e 0 = Some gid" and "stmt_ok e SqlUpsertApp" and "stmt_ok e SqlInsertAppAlert"
  shows "sqliteDb (logBlockedApp e p b s) =
           (sqliteDb s)\<lparr>app := app (sqliteDb s) @
               [insertedRow (newAppId (app (sqliteDb s))) gid
                  ((newApp e)\<lparr>blocked := b, alerted := True, groupIndex := 0,
                     appOriginPath := p, appPath := normalizePath e p,
                     appName := appNameOf e p\<rparr>) (currentMSecs e)],
             app_alert := insert (newAppId (app (sqliteDb s))) (app_alert (sqliteDb s))\<rparr>"
proof -
  let ?a = "(newApp e)\<lparr>blocked := b, alerted := True, groupIndex := 0,
                     appOriginPath := p, appPath := normalizePath e p,
                     appName := appNameOf e p\<rparr>"
  have g: "appGroupAt e (groupIndex ?a) = Some gid" using assms(2) by simp
  have "sqliteDb (logBlockedApp e p b s) = sqliteDb (snd (addOrUpdateApp e ?a s))"
    using assms(1)
    by (simp add: logBlockedApp_def Let_def appIdByPath_none emitAppAlerted_def emit_simps
        split: prod.splits)
  also have "\<dots> = upsertStore e gid ?a (sqliteDb s)"
    using assms(3) by (simp add: addOrUpdateApp_db [OF g])
  also have "\<dots> = (sqliteDb s)\<lparr>app := app (sqliteDb s) @
               [insertedRow (newAppId (app (sqliteDb s))) gid ?a (currentMSecs e)],
             app_alert := insert (newAppId (app (sqliteDb s))) (app_alert (sqliteDb s))\<rparr>"
    using assms(1,4) sqlUpsertApp_fresh [of ?a "sqliteDb s" gid "currentMSecs e"]
    by (simp add: upsertStore_def sqlInsertAppAlert_def)
  finally show ?thesis .
qed

lemma set_selectAppFields:
  "set (selectAppFields d w) =
     {(gi, r). r \<in> set (app d) \<and> w r \<and> app_group d (t_app_group_id r) = Some gi}"
  by (auto simp: selectAppFields_def split: option.splits)

lemma loadAppById_Some:
  assumes "loadAppById e a s = Some a0"
  obtains gi r where "r \<in> set (app (sqliteDb s))" and "t_app_id r = appId a"
    and "app_group (sqliteDb s) (t_app_group_id r) = Some gi"
    and "a0 = fillApp (sqliteDb s) gi r a"
proof -
  from assms obtain gi r rest where sel: "sqlSelectAppById (appId a) (sqliteDb s) = (gi, r) # rest"
    and a0: "a0 = fillApp (sqliteDb s) gi r a"
    by (auto simp: loadAppById_def query_def split: option.splits list.splits if_splits)
  have "(gi, r) \<in> set (sqlSelectAppById (appId a) (sqliteDb s))" by (simp add: sel)
  then have "r \<in> set (app (sqliteDb s))" "t_app_id r = appId a"
    "app_group (sqliteDb s) (t_app_group_id r) = Some gi"
    by (simp_all add: sqlSelectAppById_def set_selectAppFields)
  with a0 that show thesis by blast
qed

lemma loadAppById_appId: "loadAppById e a s = Some a0 \<Longrightarrow> appId a0 = appId a"
  by (erule loadAppById_Some) (simp add: fillApp_def)

lemma prepareAppBlocked_fields:
  "prepareAppBlocked a0 b k = (True, a) \<Longrightarrow>
   appId a = appId a0 \<and> blocked a = b \<and> killProcess a = k \<and> isWildcard a = isWildcard a0"
  by (auto simp: prepareAppBlocked_def Let_def split: if_splits)

lemma updateAppBlocked_True:
  assumes "fst (updateAppBlocked e i b k w s)"
  shows "saveAppBlockedOk e \<and>
         sqliteDb (snd (snd (updateAppBlocked e i b k w s))) =
           sqlDeleteAppAlert i (sqlUpdateAppBlocked i b k (sqliteDb s))"
proof -
  from assms obtain a0 where l: "loadAppById e ((newApp e)\<lparr>appId := i\<rparr>) s = Some a0"
    by (auto simp: updateAppBlocked_def split: option.splits)
  from assms l obtain a where p: "prepareAppBlocked a0 b k = (True, a)"
    by (auto simp: updateAppBlocked_def split: prod.splits bool.splits)
  from assms l p have ok: "fst (saveAppBlocked e a s)"
    by (auto simp: updateAppBlocked_def split: prod.splits bool.splits)
  have "appId a0 = i" using loadAppById_appId [OF l] by simp
  with prepareAppBlocked_fields [OF p] have f: "appId a = i" "blocked a = b" "killProcess a = k"
    by simp_all
  from ok have sok: "saveAppBlockedOk e" by (simp add: saveAppBlocked_fst)
  then show ?thesis
    by (simp add: updateAppBlocked_db l p saveAppBlocked_db f)
qed

text \<open>
  C7, as amended. An entry auto-created by \<^verbatim>\<open>logBlockedApp\<close> from a path no row has is a
  new row whose id is in \<^verbatim>\<open>app_alert\<close>; after a successful full update or a successful
  blocked-state update of an id, the id is not in \<^verbatim>\<open>app_alert\<close>; a name-only update
  leaves \<^verbatim>\<open>app_alert\<close> as it was.
\<close>

theorem alerted_after_updates:
  "(sqlSelectAppIdByPath (normalizePath e p) (sqliteDb s) = None \<and> appGroupAt e 0 = Some gid
      \<and> stmt_ok e SqlUpsertApp \<and> stmt_ok e SqlInsertAppAlert
    \<longrightarrow> (\<exists>r\<in>set (app (sqliteDb (logBlockedApp e p b s))).
           t_app_id r = newAppId (app (sqliteDb s)) \<and> t_origin_path r = p
           \<and> t_app_id r \<notin> t_app_id ` set (app (sqliteDb s))
           \<and> t_app_id r \<in> app_alert (sqliteDb (logBlockedApp e p b s))))
   \<and> (fst (updateApp e a s) \<longrightarrow> appId a \<notin> app_alert (sqliteDb (snd (updateApp e a s))))
   \<and> (fst (updateAppBlocked e i b k w s)
        \<longrightarrow> i \<notin> app_alert (sqliteDb (snd (snd (updateAppBlocked e i b k w s)))))
   \<and> app_alert (sqliteDb (snd (updateAppName e i n s))) = app_alert (sqliteDb s)"
proof (intro conjI impI)
  assume h: "sqlSelectAppIdByPath (normalizePath e p) (sqliteDb s) = None \<and> appGroupAt e 0 = Some gid
      \<and> stmt_ok e SqlUpsertApp \<and> stmt_ok e SqlInsertAppAlert"
  have fresh: "newAppId (app (sqliteDb s)) \<notin> t_app_id ` set (app (sqliteDb s))"
    using newAppId_greater [of _ "app (sqliteDb s)"] by fastforce
  show "\<exists>r\<in>set (app (sqliteDb (logBlockedApp e p b s))).
           t_app_id r = newAppId (app (sqliteDb s)) \<and> t_origin_path r = p
           \<and> t_app_id r \<notin> t_app_id ` set (app (sqliteDb s))
           \<and> t_app_id r \<in> app_alert (sqliteDb (logBlockedApp e p b s))"
    using h fresh by (simp add: logBlockedApp_db insertedRow_def)
next
  assume "fst (updateApp e a s)"
  then show "appId a \<notin> app_alert (sqliteDb (snd (updateApp e a s)))"
    by (cases "appGroupAt e (groupIndex a)")
       (simp_all add: updateApp_null_group updateApp_fst updateApp_db sqlDeleteAppAlert_def)
next
  assume "fst (updateAppBlocked e i b k w s)"
  then show "i \<notin> app_alert (sqliteDb (snd (snd (updateAppBlocked e i b k w s))))"
    using updateAppBlocked_True [of e i b k w s] by (simp add: sqlDeleteAppAlert_def)
next
  show "app_alert (sqliteDb (snd (updateAppName e i n s))) = app_alert (sqliteDb s)"
    by (simp add: updateAppName_db sqlUpdateAppName_def)
qed

theorem alerted_after_updates_witness:
  "sqlSelectAppIdByPath (normalizePath exEnv ''a'') (sqliteDb (exState (exDb []))) = None
   \<and> appGroupAt exEnv 0 = Some 1 \<and> stmt_ok exEnv SqlUpsertApp \<and> stmt_ok exEnv SqlInsertAppAlert
   \<and> app_alert (sqliteDb (logBlockedApp exEnv ''a'' True (exState (exDb [])))) = {1}
   \<and> map t_app_id (app (sqliteDb (logBlockedApp exEnv ''a'' True (exState (exDb []))))) = [1]
   \<and> fst (updateApp exEnv (exApp\<lparr>appId := 1, appPath := ''a''\<rparr>) exAlertedState)
   \<and> 1 \<notin> app_alert (sqliteDb (snd (updateApp exEnv (exApp\<lparr>appId := 1, appPath := ''a''\<rparr>) exAlertedState)))
   \<and> fst (updateAppBlocked exEnv 1 True False False exAlertedState)
   \<and> 1 \<notin> app_alert (sqliteDb (snd (snd (updateAppBlocked exEnv 1 True False False exAlertedState))))"
proof -
  have ev: "sqlSelectAppIdByPath (normalizePath exEnv ''a'') (sqliteDb (exState (exDb []))) = None"
    "appGroupAt exEnv 0 = Some 1" "stmt_ok exEnv SqlUpsertApp" "stmt_ok exEnv SqlInsertAppAlert"
    "app_alert (sqliteDb (logBlockedApp exEnv ''a'' True (exState (exDb [])))) = {1}"
    "map t_app_id (app (sqliteDb (logBlockedApp exEnv ''a'' True (exState (exDb []))))) = [1]"
    "fst (updateApp exEnv (exApp\<lparr>appId := 1, appPath := ''a''\<rparr>) exAlertedState)"
    "fst (updateAppBlocked exEnv 1 True False False exAlertedState)"
    by code_simp+
  show ?thesis
    using ev
      alerted_after_updates [where e = exEnv and p = "''a''" and s = "exState (exDb [])"
        and gid = 1 and b = True]
      alerted_after_updates [where e = exEnv and s = exAlertedState and b = True
        and a = "exApp\<lparr>appId := 1, appPath := ''a''\<rparr>" and i = 1 and k = False and w = False]
    by simp
qed

subsection \<open>Blocked entries and end times\<close>



























subsection \<open>Upsert on an existing path\<close>

lemma find_via_filter: "find P xs = (case filter P xs of [] \<Rightarrow> None | x # _ \<Rightarrow> Some x)"
  by (induction xs) simp_all

lemma filter_unique_key:
  "distinct (filter Q (map f xs)) \<Longrightarrow> r \<in> set xs \<Longrightarrow> Q (f r) \<Longrightarrow> filter (\<lambda>x. f x = f r) xs = [r]"
proof (induction xs)
  case Nil
  then show ?case by simp
next
  case (Cons x xs)
  have d: "distinct (filter Q (map f xs))" using Cons.prems(1) by (simp split: if_splits)
  show ?case
  proof (cases "x = r")
    case True
    have "f r \<notin> set (filter Q (map f xs))" using Cons.prems(1,3) True by simp
    then have "\<forall>y\<in>set xs. f y \<noteq> f r" using Cons.prems(3) by (fastforce simp: image_iff)
    then have "filter (\<lambda>y. f y = f r) xs = []" by (simp add: filter_empty_conv)
    with True show ?thesis by simp
  next
    case False
    with Cons.prems have r: "r \<in> set xs" by simp
    have "f x \<noteq> f r"
    proof
      assume eq: "f x = f r"
      then have "Q (f x)" using Cons.prems(3) by simp
      then have "f x \<notin> set (filter Q (map f xs))" using Cons.prems(1) by simp
      moreover have "f r \<in> set (filter Q (map f xs))" using r Cons.prems(3) by simp
      ultimately show False using eq by simp
    qed
    then show ?thesis using Cons.IH [OF d r Cons.prems(3)] by simp
  qed
qed

lemma setAppColumns_path [simp]: "t_path (setAppColumns gid a r) = t_path r"
  by (simp add: setAppColumns_def)

lemma setAppColumns_id [simp]: "t_app_id (setAppColumns gid a r) = t_app_id r"
  by (simp add: setAppColumns_def)

lemma setAppColumns_insertedRow:
  "t_path r = pathVar a \<Longrightarrow>
   setAppColumns gid a r = insertedRow (t_app_id r) gid a (t_creat_time r)"
  by (cases r) (simp add: setAppColumns_def insertedRow_def)

lemma upsert_existing:
  assumes "pathVar a = Some p" and "filter (\<lambda>r. t_path r = Some p) (app d) = [r1]"
  shows "sqlUpsertApp gid a ct d =
           (t_app_id r1,
            d\<lparr>app := map (\<lambda>r. if t_path r = Some p then setAppColumns gid a r else r) (app d)\<rparr>)"
    and "filter (\<lambda>r. t_path r = Some p) (app (snd (sqlUpsertApp gid a ct d)))
           = [insertedRow (t_app_id r1) gid a (t_creat_time r1)]"
    and "map t_app_id (app (snd (sqlUpsertApp gid a ct d))) = map t_app_id (app d)"
    and "map t_path (app (snd (sqlUpsertApp gid a ct d))) = map t_path (app d)"
proof -
  have "r1 \<in> set (filter (\<lambda>r. t_path r = Some p) (app d))" by (simp add: assms(2))
  then have p1: "t_path r1 = Some p" by simp
  have f: "find (\<lambda>r. t_path r = Some p) (app d) = Some r1"
    by (simp add: find_via_filter assms(2))
  show u: "sqlUpsertApp gid a ct d =
           (t_app_id r1,
            d\<lparr>app := map (\<lambda>r. if t_path r = Some p then setAppColumns gid a r else r) (app d)\<rparr>)"
    by (simp add: sqlUpsertApp_def assms(1) f p1)
  have "filter (\<lambda>r. t_path r = Some p)
          (map (\<lambda>r. if t_path r = Some p then setAppColumns gid a r else r) (app d))
        = map (\<lambda>r. if t_path r = Some p then setAppColumns gid a r else r)
            (filter (\<lambda>r. t_path r = Some p) (app d))"
    by (simp add: filter_map comp_def if_distrib [of t_path] cong: if_cong)
  also have "\<dots> = [setAppColumns gid a r1]" by (simp add: assms(2) p1)
  also have "\<dots> = [insertedRow (t_app_id r1) gid a (t_creat_time r1)]"
    using setAppColumns_insertedRow [of r1 a gid] by (simp add: p1 assms(1))
  finally show "filter (\<lambda>r. t_path r = Some p) (app (snd (sqlUpsertApp gid a ct d)))
           = [insertedRow (t_app_id r1) gid a (t_creat_time r1)]"
    by (simp add: u)
  show "map t_app_id (app (snd (sqlUpsertApp gid a ct d))) = map t_app_id (app d)"
    by (simp add: u comp_def if_distrib [of t_app_id] cong: if_cong)
  show "map t_path (app (snd (sqlUpsertApp gid a ct d))) = map t_path (app d)"
    by (simp add: u comp_def if_distrib [of t_path] cong: if_cong)
qed

lemma upsert_new:
  assumes "pathVar a = Some p" and "filter (\<lambda>r. t_path r = Some p) (app d) = []"
  shows "sqlUpsertApp gid a ct d =
           (newAppId (app d), d\<lparr>app := app d @ [insertedRow (newAppId (app d)) gid a ct]\<rparr>)"
    and "filter (\<lambda>r. t_path r = Some p) (app (snd (sqlUpsertApp gid a ct d)))
           = [insertedRow (newAppId (app d)) gid a ct]"
proof -
  have f: "find (\<lambda>r. t_path r = Some p) (app d) = None"
    by (simp add: find_via_filter assms(2))
  show u: "sqlUpsertApp gid a ct d =
           (newAppId (app d), d\<lparr>app := app d @ [insertedRow (newAppId (app d)) gid a ct]\<rparr>)"
    by (simp add: sqlUpsertApp_def assms(1) f)
  show "filter (\<lambda>r. t_path r = Some p) (app (snd (sqlUpsertApp gid a ct d)))
           = [insertedRow (newAppId (app d)) gid a ct]"
    using assms by (simp add: u insertedRow_def)
qed

lemma upsert_one_row:
  assumes "uniquePaths d" and "pathVar a = Some p"
  shows "\<exists>r1. filter (\<lambda>r. t_path r = Some p) (app (snd (sqlUpsertApp gid a ct d))) = [r1]"
    and "uniquePaths (snd (sqlUpsertApp gid a ct d))"
proof -
  show "\<exists>r1. filter (\<lambda>r. t_path r = Some p) (app (snd (sqlUpsertApp gid a ct d))) = [r1]"
  proof (cases "filter (\<lambda>r. t_path r = Some p) (app d)")
    case Nil
    then show ?thesis using upsert_new(2) [OF assms(2) Nil] by blast
  next
    case (Cons r0 rest)
    then have "r0 \<in> set (filter (\<lambda>r. t_path r = Some p) (app d))" by simp
    then have "r0 \<in> set (app d)" "t_path r0 = Some p" by simp_all
    then have "filter (\<lambda>r. t_path r = t_path r0) (app d) = [r0]"
      using assms(1) filter_unique_key [of "\<lambda>p. p \<noteq> None" t_path "app d" r0]
      by (simp add: uniquePaths_def)
    then have one: "filter (\<lambda>r. t_path r = Some p) (app d) = [r0]"
      by (simp add: \<open>t_path r0 = Some p\<close>)
    show ?thesis using upsert_existing(2) [OF assms(2) one] by blast
  qed
  show "uniquePaths (snd (sqlUpsertApp gid a ct d))"
  proof (cases "filter (\<lambda>r. t_path r = Some p) (app d)")
    case Nil
    then have "Some p \<notin> set (map t_path (app d))"
      by (auto simp: filter_empty_conv)
    then show ?thesis
      using assms(1) by (simp add: upsert_new(1) [OF assms(2) Nil] uniquePaths_def insertedRow_def assms(2))
  next
    case (Cons r0 rest)
    then have "r0 \<in> set (filter (\<lambda>r. t_path r = Some p) (app d))" by simp
    then have "r0 \<in> set (app d)" "t_path r0 = Some p" by simp_all
    then have "filter (\<lambda>r. t_path r = t_path r0) (app d) = [r0]"
      using assms(1) filter_unique_key [of "\<lambda>p. p \<noteq> None" t_path "app d" r0]
      by (simp add: uniquePaths_def)
    then have one: "filter (\<lambda>r. t_path r = Some p) (app d) = [r0]"
      by (simp add: \<open>t_path r0 = Some p\<close>)
    show ?thesis
      using assms(1) upsert_existing(4) [OF assms(2) one, of gid ct] by (simp add: uniquePaths_def)
  qed
qed

lemma app_upsertStore:
  "app (upsertStore e gid a d) = app (snd (sqlUpsertApp gid a (currentMSecs e) d))"
  by (simp add: upsertStore_def sqlInsertAppAlert_def sqlDeleteAppAlert_def split: prod.splits)

lemma alert_upsertStore:
  assumes "stmt_ok e SqlInsertAppAlert" "stmt_ok e SqlDeleteAppAlert"
  shows "(fst (sqlUpsertApp gid a (currentMSecs e) d) \<in> app_alert (upsertStore e gid a d)) = alerted a"
  using assms
  by (simp add: upsertStore_def sqlInsertAppAlert_def sqlDeleteAppAlert_def split: prod.splits)

text \<open>
  C2. For a non-empty path \<open>p\<close> and a store whose paths are unique: after one upsert with
  path \<open>p\<close> exactly one row \<open>r1\<close> has the path; a second upsert with path \<open>p\<close> returns the
  id of \<open>r1\<close> and leaves the table with the same ids in the same order, in which exactly
  one row has the path, holding the columns of the second entry under the id and creation
  time of \<open>r1\<close>; its alerted flag is the second entry's when the alert statement runs.
\<close>

theorem upsert_existing_path_in_place:
  assumes "uniquePaths (sqliteDb s)"
    and "appPath a1 = p" and "appPath a2 = p" and "p \<noteq> []"
    and "appGroupAt e1 (groupIndex a1) = Some g1" and "appGroupAt e2 (groupIndex a2) = Some g2"
    and "stmt_ok e1 SqlUpsertApp" and "stmt_ok e2 SqlUpsertApp"
    and "s1 = snd (addOrUpdateApp e1 a1 s)" and "s2 = snd (addOrUpdateApp e2 a2 s1)"
  shows "\<exists>r1. filter (\<lambda>r. t_path r = Some p) (app (sqliteDb s1)) = [r1]
          \<and> fst (sqlUpsertApp g2 a2 (currentMSecs e2) (sqliteDb s1)) = t_app_id r1
          \<and> filter (\<lambda>r. t_path r = Some p) (app (sqliteDb s2))
              = [insertedRow (t_app_id r1) g2 a2 (t_creat_time r1)]
          \<and> map t_app_id (app (sqliteDb s2)) = map t_app_id (app (sqliteDb s1))
          \<and> fst (addOrUpdateApp e1 a1 s) \<and> fst (addOrUpdateApp e2 a2 s1)
          \<and> (stmt_ok e2 SqlInsertAppAlert \<and> stmt_ok e2 SqlDeleteAppAlert
               \<longrightarrow> (t_app_id r1 \<in> app_alert (sqliteDb s2)) = alerted a2)"
proof -
  let ?d = "sqliteDb s"
  have pv1: "pathVar a1 = Some p" and pv2: "pathVar a2 = Some p"
    using assms(2-4) by (simp_all add: pathVar_def)
  have d1: "sqliteDb s1 = upsertStore e1 g1 a1 ?d"
    using assms(7) by (simp add: assms(9) addOrUpdateApp_db [OF assms(5)])
  have d2: "sqliteDb s2 = upsertStore e2 g2 a2 (sqliteDb s1)"
    using assms(8) by (simp add: assms(10) addOrUpdateApp_db [OF assms(6)])
  obtain r1 where r1: "filter (\<lambda>r. t_path r = Some p) (app (sqliteDb s1)) = [r1]"
    using upsert_one_row(1) [OF assms(1) pv1, of g1 "currentMSecs e1"]
    by (auto simp: d1 app_upsertStore)
  note ex = upsert_existing [OF pv2 r1, of g2 "currentMSecs e2"]
  have id: "fst (sqlUpsertApp g2 a2 (currentMSecs e2) (sqliteDb s1)) = t_app_id r1"
    by (simp add: ex(1))
  have row: "filter (\<lambda>r. t_path r = Some p) (app (sqliteDb s2))
              = [insertedRow (t_app_id r1) g2 a2 (t_creat_time r1)]"
    by (simp add: d2 app_upsertStore ex(2))
  have ids: "map t_app_id (app (sqliteDb s2)) = map t_app_id (app (sqliteDb s1))"
    by (simp add: d2 app_upsertStore ex(3))
  have ok: "fst (addOrUpdateApp e1 a1 s)" "fst (addOrUpdateApp e2 a2 s1)"
    using assms(7,8) by (simp_all add: addOrUpdateApp_fst [OF assms(5)] addOrUpdateApp_fst [OF assms(6)])
  have al: "stmt_ok e2 SqlInsertAppAlert \<and> stmt_ok e2 SqlDeleteAppAlert
               \<longrightarrow> (t_app_id r1 \<in> app_alert (sqliteDb s2)) = alerted a2"
    using alert_upsertStore [of e2 g2 a2 "sqliteDb s1"] by (simp add: d2 id)
  from r1 id row ids ok al show ?thesis by blast
qed

theorem upsert_existing_path_in_place_witness:
  "uniquePaths (sqliteDb (exState (exDb [])))
   \<and> appPath (exNamedApp ''one'' False) = ''c:/a.exe''
   \<and> appPath (exNamedApp ''two'' True) = ''c:/a.exe''
   \<and> ''c:/a.exe'' \<noteq> []
   \<and> appGroupAt exEnv (groupIndex (exNamedApp ''one'' False)) = Some 1
   \<and> appGroupAt exEnv (groupIndex (exNamedApp ''two'' True)) = Some 1
   \<and> stmt_ok exEnv SqlUpsertApp
   \<and> map (\<lambda>r. (t_app_id r, t_path r, t_name r, t_blocked r))
        (app (sqliteDb (snd (addOrUpdateApp exEnv (exNamedApp ''one'' False) (exState (exDb []))))))
       = [(1, Some ''c:/a.exe'', ''one'', False)]
   \<and> map (\<lambda>r. (t_app_id r, t_path r, t_name r, t_blocked r))
        (app (sqliteDb (snd (addOrUpdateApp exEnv (exNamedApp ''two'' True)
           (snd (addOrUpdateApp exEnv (exNamedApp ''one'' False) (exState (exDb []))))))))
       = [(1, Some ''c:/a.exe'', ''two'', True)]
   \<and> length (filter (\<lambda>r. t_path r = Some ''c:/a.exe'')
        (app (sqliteDb (snd (addOrUpdateApp exEnv (exNamedApp ''two'' True)
           (snd (addOrUpdateApp exEnv (exNamedApp ''one'' False) (exState (exDb [])))))))))
       = 1"
proof -
  let ?s1 = "snd (addOrUpdateApp exEnv (exNamedApp ''one'' False) (exState (exDb [])))"
  let ?s2 = "snd (addOrUpdateApp exEnv (exNamedApp ''two'' True) ?s1)"
  have h: "uniquePaths (sqliteDb (exState (exDb [])))"
    "appPath (exNamedApp ''one'' False) = ''c:/a.exe''"
    "appPath (exNamedApp ''two'' True) = ''c:/a.exe''"
    "''c:/a.exe'' \<noteq> []"
    "appGroupAt exEnv (groupIndex (exNamedApp ''one'' False)) = Some 1"
    "appGroupAt exEnv (groupIndex (exNamedApp ''two'' True)) = Some 1"
    "stmt_ok exEnv SqlUpsertApp"
    by code_simp+
  have ev: "map (\<lambda>r. (t_app_id r, t_path r, t_name r, t_blocked r)) (app (sqliteDb ?s1))
       = [(1, Some ''c:/a.exe'', ''one'', False)]"
    "map (\<lambda>r. (t_app_id r, t_path r, t_name r, t_blocked r)) (app (sqliteDb ?s2))
       = [(1, Some ''c:/a.exe'', ''two'', True)]"
    by code_simp+
  have "length (filter (\<lambda>r. t_path r = Some ''c:/a.exe'') (app (sqliteDb ?s2))) = 1"
    using upsert_existing_path_in_place [OF h(1-6) h(7) h(7) refl refl]
    by (elim exE conjE) (simp only: list.size One_nat_def add_0)
  with h ev show ?thesis by (intro conjI)
qed

subsection \<open>Expiry of scheduled blocks\<close>

lemma expireRow_simps [simp]:
  "t_app_id (expireRow r) = t_app_id r" "t_path (expireRow r) = t_path r"
  "t_app_group_id (expireRow r) = t_app_group_id r"
  "t_blocked (expireRow r) = True" "t_kill_process (expireRow r) = False"
  "t_end_time (expireRow r) = None"
  by (simp_all add: expireRow_def)

lemma expireRow_idem [simp]: "expireRow (expireRow r) = expireRow r"
  by (simp add: expireRow_def)

lemma expiryApp_fields:
  "appId (expiryApp e d (gi, r)) = t_app_id r" "groupIndex (expiryApp e d (gi, r)) = gi"
  "endTime (expiryApp e d (gi, r)) = None" "appPath (expiryApp e d (gi, r)) = columnText (t_path r)"
  by (simp_all add: expiryApp_def fillApp_def newApp_def)

lemma pathVar_expiryApp:
  "t_path r \<noteq> Some [] \<Longrightarrow> pathVar (expiryApp e d (gi, r)) = t_path r"
  by (cases "t_path r") (simp_all add: pathVar_def expiryApp_fields columnText_def)

lemma setAppColumns_expiryApp:
  "t_path r \<noteq> Some [] \<Longrightarrow>
   (setAppColumns (t_app_group_id r) (expiryApp e d (gi, r)) r)
      \<lparr>t_path := pathVar (expiryApp e d (gi, r))\<rparr> = expireRow r"
  by (cases r)
     (simp add: pathVar_expiryApp, simp add: setAppColumns_def expiryApp_def fillApp_def
        newApp_def expireRow_def)

lemma primaryKey_same_id:
  "primaryKey d \<Longrightarrow> r \<in> set (app d) \<Longrightarrow> x \<in> set (app d) \<Longrightarrow> t_app_id x = t_app_id r \<Longrightarrow> x = r"
  by (auto simp: primaryKey_def distinct_map dest: inj_onD)

lemma uniquePaths_same_path:
  assumes "uniquePaths d" "r \<in> set (app d)" "x \<in> set (app d)" "t_path x = t_path r"
    "t_path r \<noteq> None"
  shows "x = r"
proof -
  have "filter (\<lambda>y. t_path y = t_path r) (app d) = [r]"
    using assms(1,2,5) filter_unique_key [of "\<lambda>p. p \<noteq> None" t_path "app d" r]
    by (simp add: uniquePaths_def)
  moreover have "x \<in> set (filter (\<lambda>y. t_path y = t_path r) (app d))"
    using assms(3,4) by simp
  ultimately show ?thesis by simp
qed

lemma sqlUpdateApp_expiry:
  assumes c: "consistentStore e d0" and r: "r \<in> set (app d0)" and nI: "t_app_id r \<notin> I"
  shows "sqlUpdateApp (t_app_group_id r) (expiryApp e dx (gi, r)) (expireAll I d0)
           = Some ((expireAll I d0)\<lparr>app := app (expireAll (insert (t_app_id r) I) d0)\<rparr>)"
proof -
  let ?a = "expiryApp e dx (gi, r)"
  let ?g = "\<lambda>x. if t_app_id x \<in> I then expireRow x else x"
  have pk: "primaryKey d0" and up: "uniquePaths d0" using c by (simp_all add: consistentStore_def)
  have ne: "t_path r \<noteq> Some []"
    using c r by (auto simp: consistentStore_def list_all_iff)
  have pv: "pathVar ?a = t_path r" using ne by (rule pathVar_expiryApp)
  have noconf: "\<not> (pathVar ?a \<noteq> None
       \<and> list_ex (\<lambda>x. t_app_id x \<noteq> appId ?a \<and> t_path x = pathVar ?a) (app (expireAll I d0)))"
  proof
    assume h: "pathVar ?a \<noteq> None
       \<and> list_ex (\<lambda>x. t_app_id x \<noteq> appId ?a \<and> t_path x = pathVar ?a) (app (expireAll I d0))"
    then obtain x where x: "x \<in> set (app d0)" "t_app_id (?g x) \<noteq> t_app_id r" "t_path (?g x) = t_path r"
      by (auto simp: list_ex_iff expireAll_def pv expiryApp_fields)
    then have "t_app_id x \<noteq> t_app_id r" "t_path x = t_path r" by (simp_all split: if_splits)
    moreover have "t_path r \<noteq> None" using h pv by simp
    ultimately show False using uniquePaths_same_path [OF up r x(1)] by auto
  qed
  have rows: "map (\<lambda>x. if t_app_id x = appId ?a
                       then (setAppColumns (t_app_group_id r) ?a x)\<lparr>t_path := pathVar ?a\<rparr>
                       else x) (app (expireAll I d0))
              = app (expireAll (insert (t_app_id r) I) d0)"
  proof -
    have "\<And>x. x \<in> set (app d0) \<Longrightarrow>
            (if t_app_id (?g x) = t_app_id r
             then (setAppColumns (t_app_group_id r) ?a (?g x))\<lparr>t_path := pathVar ?a\<rparr>
             else ?g x)
            = (if t_app_id x \<in> insert (t_app_id r) I then expireRow x else x)"
    proof -
      fix x assume x: "x \<in> set (app d0)"
      show "(if t_app_id (?g x) = t_app_id r
             then (setAppColumns (t_app_group_id r) ?a (?g x))\<lparr>t_path := pathVar ?a\<rparr>
             else ?g x)
            = (if t_app_id x \<in> insert (t_app_id r) I then expireRow x else x)"
      proof (cases "t_app_id x = t_app_id r")
        case True
        then have "x = r" using primaryKey_same_id [OF pk r x] by simp
        then show ?thesis using nI setAppColumns_expiryApp [OF ne, of e dx gi] by simp
      next
        case False
        then show ?thesis by simp
      qed
    qed
    then show ?thesis
      by (simp add: expireAll_def expiryApp_fields comp_def cong: map_cong)
  qed
  show ?thesis
    using noconf by (simp add: sqlUpdateApp_def rows)
qed

lemma expireAll_alert_step:
  "sqlDeleteAppAlert i ((expireAll I d0)\<lparr>app := app (expireAll (insert i I) d0)\<rparr>)
     = expireAll (insert i I) d0"
proof -
  have "app_alert d0 - I - {i} = app_alert d0 - insert i I" by blast
  then show ?thesis by (simp add: expireAll_def sqlDeleteAppAlert_def)
qed

lemma driverUpdateEvents_counts:
  assumes "healthy e"
  shows "length (filter isPush (driverUpdateEvents e a d)) = 1"
    and "count_list (driverUpdateEvents e a d) EmitAppUpdated = 0"
    and "count_list (driverUpdateEvents e a d) CommitTransaction = 0"
    and "count_list (driverUpdateEvents e a d) RollbackTransaction = 0"
proof -
  have "writeAppEntry e a \<noteq> None" "writeConfBuf e False d \<noteq> None"
    using assms by (simp_all add: healthy_def)
  then obtain m1 m2 where m1: "writeAppEntry e a = Some m1"
    and m2: "writeConfBuf e False d = Some m2"
    by auto
  show "length (filter isPush (driverUpdateEvents e a d)) = 1"
    and "count_list (driverUpdateEvents e a d) EmitAppUpdated = 0"
    and "count_list (driverUpdateEvents e a d) CommitTransaction = 0"
    and "count_list (driverUpdateEvents e a d) RollbackTransaction = 0"
    by (simp_all add: driverUpdateEvents_def driverConfEvents_def driverAppEvents_def
        isPush_def m1 m2)
qed

lemma updateApp_expiry_step:
  assumes c: "consistentStore e d0" and h: "healthy e"
    and r: "r \<in> set (app d0)" and nI: "t_app_id r \<notin> I"
    and grp: "app_group d0 (t_app_group_id r) = Some gi"
    and s: "sqliteDb s = expireAll I d0"
  shows "sqliteDb (snd (updateApp e (expiryApp e dx (gi, r)) s)) = expireAll (insert (t_app_id r) I) d0"
    and "\<exists>evs. trace (snd (updateApp e (expiryApp e dx (gi, r)) s)) = trace s @ evs
           \<and> length (filter isPush evs) = 1 \<and> count_list evs EmitAppUpdated = 1
           \<and> count_list evs CommitTransaction = 1 \<and> count_list evs RollbackTransaction = 0"
proof -
  let ?a = "expiryApp e dx (gi, r)"
  have "appGroupAt e gi = Some (t_app_group_id r)"
    using c r grp by (auto simp: consistentStore_def list_all_iff)
  then have g: "appGroupAt e (groupIndex ?a) = Some (t_app_group_id r)"
    by (simp add: expiryApp_fields)
  note u = sqlUpdateApp_expiry [OF c r nI, of dx gi]
  have ok: "updateAppOk e (t_app_group_id r) ?a (sqliteDb s)"
    using h by (simp add: updateAppOk_def s u healthy_def)
  show "sqliteDb (snd (updateApp e ?a s)) = expireAll (insert (t_app_id r) I) d0"
    using ok by (simp add: updateApp_db [OF g] s u expiryApp_fields expireAll_alert_step)
  have "trace (snd (updateApp e ?a s)) = trace s @
          ([BeginTransaction, CommitTransaction, EmitAppUpdated]
           @ driverUpdateEvents e ?a (expireAll (insert (t_app_id r) I) d0))"
    using ok by (simp add: updateApp_trace [OF g] s u expiryApp_fields expireAll_alert_step)
  moreover have "length (filter isPush ([BeginTransaction, CommitTransaction, EmitAppUpdated]
           @ driverUpdateEvents e ?a (expireAll (insert (t_app_id r) I) d0))) = 1"
    "count_list ([BeginTransaction, CommitTransaction, EmitAppUpdated]
           @ driverUpdateEvents e ?a (expireAll (insert (t_app_id r) I) d0)) EmitAppUpdated = 1"
    "count_list ([BeginTransaction, CommitTransaction, EmitAppUpdated]
           @ driverUpdateEvents e ?a (expireAll (insert (t_app_id r) I) d0)) CommitTransaction = 1"
    "count_list ([BeginTransaction, CommitTransaction, EmitAppUpdated]
           @ driverUpdateEvents e ?a (expireAll (insert (t_app_id r) I) d0)) RollbackTransaction = 0"
    by (simp_all add: driverUpdateEvents_counts [OF h] isPush_def)
  ultimately show "\<exists>evs. trace (snd (updateApp e ?a s)) = trace s @ evs
           \<and> length (filter isPush evs) = 1 \<and> count_list evs EmitAppUpdated = 1
           \<and> count_list evs CommitTransaction = 1 \<and> count_list evs RollbackTransaction = 0"
    by blast
qed

lemma updateAppEndTimesLoop_expiry:
  assumes c: "consistentStore e d0" and h: "healthy e"
  shows "\<forall>x\<in>set todo. snd x \<in> set (app d0) \<and> app_group d0 (t_app_group_id (snd x)) = Some (fst x)
                          \<and> t_app_id (snd x) \<notin> I \<Longrightarrow>
         distinct (map (\<lambda>x. t_app_id (snd x)) todo) \<Longrightarrow>
         sqliteDb s = expireAll I d0 \<Longrightarrow>
         sqliteDb (updateAppEndTimesLoop e (map (\<lambda>x. fillApp dx (fst x) (snd x) (newApp e)) todo) s)
           = expireAll (I \<union> (\<lambda>x. t_app_id (snd x)) ` set todo) d0
         \<and> (\<exists>evs. trace (updateAppEndTimesLoop e (map (\<lambda>x. fillApp dx (fst x) (snd x) (newApp e)) todo) s) = trace s @ evs
               \<and> length (filter isPush evs) = length todo
               \<and> count_list evs EmitAppUpdated = length todo
               \<and> count_list evs CommitTransaction = length todo
               \<and> count_list evs RollbackTransaction = 0)"
proof (induction todo arbitrary: I s)
  case Nil
  then show ?case by simp
next
  case (Cons x todo)
  obtain gi r where x: "x = (gi, r)" by (cases x)
  let ?s1 = "snd (updateApp e ((fillApp dx gi r (newApp e))\<lparr>blocked := True, killProcess := False\<rparr>) s)"
  have same: "(fillApp dx gi r (newApp e))\<lparr>blocked := True, killProcess := False\<rparr> = expiryApp e dx (gi, r)"
    by (simp add: expiryApp_def)
  have r: "r \<in> set (app d0)" and grp: "app_group d0 (t_app_group_id r) = Some gi"
    and nI: "t_app_id r \<notin> I"
    using Cons.prems(1) by (simp_all add: x)
  note step = updateApp_expiry_step [OF c h r nI grp Cons.prems(3), of dx]
  have db1: "sqliteDb ?s1 = expireAll (insert (t_app_id r) I) d0"
    using step(1) by (simp add: same)
  obtain evs1 where ev1: "trace ?s1 = trace s @ evs1" "length (filter isPush evs1) = 1"
    "count_list evs1 EmitAppUpdated = 1" "count_list evs1 CommitTransaction = 1"
    "count_list evs1 RollbackTransaction = 0"
    using step(2) by (auto simp: same)
  have p1: "\<forall>y\<in>set todo. snd y \<in> set (app d0) \<and> app_group d0 (t_app_group_id (snd y)) = Some (fst y)
              \<and> t_app_id (snd y) \<notin> insert (t_app_id r) I"
    using Cons.prems(1,2) by (force simp: x)
  have p2: "distinct (map (\<lambda>x. t_app_id (snd x)) todo)" using Cons.prems(2) by simp
  note ih = Cons.IH [OF p1 p2 db1]
  have loop: "updateAppEndTimesLoop e (map (\<lambda>x. fillApp dx (fst x) (snd x) (newApp e)) (x # todo)) s
                = updateAppEndTimesLoop e (map (\<lambda>x. fillApp dx (fst x) (snd x) (newApp e)) todo) ?s1"
    by (simp add: x)
  obtain evs2 where ev2:
    "trace (updateAppEndTimesLoop e (map (\<lambda>x. fillApp dx (fst x) (snd x) (newApp e)) todo) ?s1) = trace ?s1 @ evs2"
    "length (filter isPush evs2) = length todo" "count_list evs2 EmitAppUpdated = length todo"
    "count_list evs2 CommitTransaction = length todo" "count_list evs2 RollbackTransaction = 0"
    using ih by blast
  have "sqliteDb (updateAppEndTimesLoop e (map (\<lambda>x. fillApp dx (fst x) (snd x) (newApp e)) (x # todo)) s)
          = expireAll (I \<union> (\<lambda>x. t_app_id (snd x)) ` set (x # todo)) d0"
    using ih by (simp add: loop x)
  moreover have "trace (updateAppEndTimesLoop e (map (\<lambda>x. fillApp dx (fst x) (snd x) (newApp e)) (x # todo)) s)
                   = trace s @ (evs1 @ evs2)"
    unfolding loop by (simp add: ev2(1) ev1(1))
  moreover have "length (filter isPush (evs1 @ evs2)) = length (x # todo)"
    "count_list (evs1 @ evs2) EmitAppUpdated = length (x # todo)"
    "count_list (evs1 @ evs2) CommitTransaction = length (x # todo)"
    "count_list (evs1 @ evs2) RollbackTransaction = 0"
    by (simp_all add: ev1 ev2)
  ultimately show ?case by blast
qed

lemma selectAppFields_total:
  assumes "\<forall>r\<in>set (app d). app_group d (t_app_group_id r) \<noteq> None"
  shows "selectAppFields d w = map (\<lambda>r. (the (app_group d (t_app_group_id r)), r)) (filter w (app d))"
proof -
  have "\<forall>r\<in>set xs. app_group d (t_app_group_id r) \<noteq> None \<Longrightarrow>
        concat (map (\<lambda>r. case app_group d (t_app_group_id r) of None \<Rightarrow> [] | Some gi \<Rightarrow> [(gi, r)]) xs)
          = map (\<lambda>r. (the (app_group d (t_app_group_id r)), r)) xs" for xs
    by (induction xs) auto
  from this [of "filter w (app d)"] assms show ?thesis
    by (simp add: selectAppFields_def)
qed

lemma consistentStore_groups:
  "consistentStore e d \<Longrightarrow> \<forall>r\<in>set (app d). app_group d (t_app_group_id r) \<noteq> None"
  by (auto simp: consistentStore_def list_all_iff split: option.splits)

lemma expired_ids:
  assumes "primaryKey d" "r \<in> set (app d)"
  shows "t_app_id r \<in> t_app_id ` {x \<in> set (app d). expired now x} \<longleftrightarrow> expired now r"
  using assms primaryKey_same_id [OF assms(1)] by (auto simp: image_iff)

lemma updateAppEndTimes_effect:
  assumes c: "consistentStore e (sqliteDb s)" and h: "healthy e"
  shows "sqliteDb (updateAppEndTimesLoop e
            (map (\<lambda>(gi, r). fillApp (sqliteDb s) gi r (newApp e))
               (sqlSelectEndedApps (currentMSecs e) (sqliteDb s))) s)
          = (sqliteDb s)\<lparr>app := map (\<lambda>r. if expired (currentMSecs e) r then expireRow r else r)
                                  (app (sqliteDb s)),
               app_alert := app_alert (sqliteDb s)
                  - t_app_id ` {r \<in> set (app (sqliteDb s)). expired (currentMSecs e) r}\<rparr>
         \<and> (\<exists>evs. trace (updateAppEndTimesLoop e
               (map (\<lambda>(gi, r). fillApp (sqliteDb s) gi r (newApp e))
                  (sqlSelectEndedApps (currentMSecs e) (sqliteDb s))) s) = trace s @ evs
               \<and> length (filter isPush evs) = length (filter (expired (currentMSecs e)) (app (sqliteDb s)))
               \<and> count_list evs EmitAppUpdated = length (filter (expired (currentMSecs e)) (app (sqliteDb s)))
               \<and> count_list evs CommitTransaction = length (filter (expired (currentMSecs e)) (app (sqliteDb s)))
               \<and> count_list evs RollbackTransaction = 0)"
proof -
  let ?d = "sqliteDb s"
  let ?now = "currentMSecs e"
  let ?todo = "sqlSelectEndedApps ?now ?d"
  have pk: "primaryKey ?d" using c by (simp add: consistentStore_def)
  have todo: "?todo = map (\<lambda>r. (the (app_group ?d (t_app_group_id r)), r)) (filter (expired ?now) (app ?d))"
  proof -
    have "(\<lambda>r. (case t_end_time r of None \<Rightarrow> False | Some t \<Rightarrow> t \<le> ?now) \<and> \<not> t_blocked r)
            = expired ?now"
      by (rule ext) (simp add: expired_def)
    then show ?thesis
      by (simp add: sqlSelectEndedApps_def selectAppFields_total [OF consistentStore_groups [OF c]])
  qed
  have len: "length ?todo = length (filter (expired ?now) (app ?d))" by (simp add: todo)
  have ids: "(\<lambda>x. t_app_id (snd x)) ` set ?todo = t_app_id ` {r \<in> set (app ?d). expired ?now r}"
    by (auto simp: todo image_iff)
  have p1: "\<forall>x\<in>set ?todo. snd x \<in> set (app ?d) \<and> app_group ?d (t_app_group_id (snd x)) = Some (fst x)
              \<and> t_app_id (snd x) \<notin> {}"
    using consistentStore_groups [OF c] by (auto simp: todo)
  have p2: "distinct (map (\<lambda>x. t_app_id (snd x)) ?todo)"
    using pk by (simp add: todo comp_def primaryKey_def distinct_map_filter)
  have p3: "?d = expireAll {} ?d" by (simp add: expireAll_def)
  have apps: "map (\<lambda>(gi, r). fillApp ?d gi r (newApp e)) ?todo
                = map (\<lambda>x. fillApp ?d (fst x) (snd x) (newApp e)) ?todo"
    by (simp add: split_def)
  note loop = updateAppEndTimesLoop_expiry [OF c h p1 p2 p3, of ?d]
  have rows: "map (\<lambda>r. if t_app_id r \<in> t_app_id ` {r \<in> set (app ?d). expired ?now r}
                       then expireRow r else r) (app ?d)
              = map (\<lambda>r. if expired ?now r then expireRow r else r) (app ?d)"
    using expired_ids [OF pk] by (simp cong: map_cong)
  have "expireAll ({} \<union> (\<lambda>x. t_app_id (snd x)) ` set ?todo) ?d
          = ?d\<lparr>app := map (\<lambda>r. if expired ?now r then expireRow r else r) (app ?d),
               app_alert := app_alert ?d - t_app_id ` {r \<in> set (app ?d). expired ?now r}\<rparr>"
    by (simp add: expireAll_def ids rows)
  then show ?thesis
    using loop unfolding apps len [symmetric] by simp
qed

lemma pending_expireRows:
  "pendingEndTimeSet (expireRows now d) = {t \<in> pendingEndTimeSet d. now < t}"
proof -
  have "set (concat (map (\<lambda>r. case t_end_time r of
                        None \<Rightarrow> []
                      | Some t \<Rightarrow> if t \<noteq> 0 \<and> \<not> t_blocked r then [t] else [])
               (map (\<lambda>r. if expired now r then expireRow r else r) xs)))
        = {t \<in> set (concat (map (\<lambda>r. case t_end_time r of
                        None \<Rightarrow> []
                      | Some t \<Rightarrow> if t \<noteq> 0 \<and> \<not> t_blocked r then [t] else []) xs)). now < t}" for xs
    by (induction xs) (auto simp: expired_def split: option.splits if_splits)
  from this [of "app d"] have "set (pendingEndTimes (expireRows now d)) = {t \<in> set (pendingEndTimes d). now < t}"
    by (simp add: pendingEndTimes_def expireRows_def)
  then show ?thesis by (simp add: set_pendingEndTimes')
qed

lemma endTimesFit_expireRows:
  "endTimesFit e d \<Longrightarrow> endTimesFit e (expireRows now d)"
  by (simp add: endTimesFit_def pending_expireRows)

lemma updateAppEndTimes_db:
  assumes c: "consistentStore e (sqliteDb s)" and h: "healthy e"
  shows "sqliteDb (updateAppEndTimes e s) = expireRows (currentMSecs e) (sqliteDb s)"
  using updateAppEndTimes_effect [OF c h] h
  by (simp add: updateAppEndTimes_def query_def healthy_def updateAppEndTimer_simps expireRows_def)

lemma updateAppEndTimes_trace:
  assumes c: "consistentStore e (sqliteDb s)" and h: "healthy e"
  shows "\<exists>evs. trace (updateAppEndTimes e s) = trace s @ evs
           \<and> length (filter isPush evs) = length (filter (expired (currentMSecs e)) (app (sqliteDb s)))
           \<and> count_list evs EmitAppUpdated = length (filter (expired (currentMSecs e)) (app (sqliteDb s)))
           \<and> count_list evs CommitTransaction = length (filter (expired (currentMSecs e)) (app (sqliteDb s)))
           \<and> count_list evs RollbackTransaction = 0"
  using updateAppEndTimes_effect [OF c h] h
  by (simp add: updateAppEndTimes_def query_def healthy_def updateAppEndTimer_simps)

lemma updateAppEndTimes_timer:
  assumes c: "consistentStore e (sqliteDb s)" and h: "healthy e" and fit: "endTimesFit e (sqliteDb s)"
  shows "m_appEndTimer (updateAppEndTimes e s) =
           (if {t \<in> pendingEndTimeSet (sqliteDb s). currentMSecs e < t} = {} then None
            else Some (specTimerInterval
                         (Min {t \<in> pendingEndTimeSet (sqliteDb s). currentMSecs e < t})
                         (currentMSecs e)))"
proof -
  let ?s1 = "updateAppEndTimesLoop e
            (map (\<lambda>(gi, r). fillApp (sqliteDb s) gi r (newApp e))
               (sqlSelectEndedApps (currentMSecs e) (sqliteDb s))) s"
  have q: "stmt_ok e SqlSelectMinEndApp" "stmt_ok e SqlSelectEndedApps"
    using h by (simp_all add: healthy_def)
  have d1: "sqliteDb ?s1 = expireRows (currentMSecs e) (sqliteDb s)"
    using updateAppEndTimes_effect [OF c h] by (simp add: expireRows_def)
  have fit1: "endTimesFit e (sqliteDb ?s1)"
    unfolding d1 using fit by (rule endTimesFit_expireRows)
  have "updateAppEndTimes e s = updateAppEndTimer e ?s1"
    using q by (simp add: updateAppEndTimes_def query_def)
  then show ?thesis
    using updateAppEndTimer_formula [OF q(1) fit1] by (simp add: d1 pending_expireRows)
qed

lemma sqlSelectMinEndApp_pending:
  "sqlSelectMinEndApp d =
     (if pendingEndTimeSet d = {} then None else Some (Min (pendingEndTimeSet d)))"
  by (simp add: sqlSelectMinEndApp_Min set_pendingEndTimes')

lemma exRows3_expired:
  "expireRows 1500 (exDb exRows3) =
     exDb [expireRow (exRow 1 ''a'' False (Some 1000)), exRow 2 ''b'' False (Some 2000),
           exRow 3 ''c'' False (Some 3000)]"
  "expireRows 2500 (exDb exRows3) =
     exDb [expireRow (exRow 1 ''a'' False (Some 1000)), expireRow (exRow 2 ''b'' False (Some 2000)),
           exRow 3 ''c'' False (Some 3000)]"
  by (simp_all add: expireRows_def expired_def exDb_def exRows3_def exRow_def)

lemma exRows3_consistent: "consistentStore (exEnvAt t) (sqliteDb (exState (exDb exRows3)))"
  by (simp add: consistentStore_def primaryKey_def uniquePaths_def exEnvAt_def exEnv_def
      exState_def exDb_def exRows3_def exRow_def)

lemma exEnvAt_healthy: "healthy (exEnvAt t)"
  by (simp add: healthy_def exEnvAt_def exEnv_def)

lemma exRows3_fit: "- 1000000 \<le> t \<Longrightarrow> t \<le> 1000000 \<Longrightarrow>
    endTimesFit (exEnvAt t) (sqliteDb (exState (exDb exRows3)))"
  by (simp add: endTimesFit_def exState_def exRows3_pending int64_def exEnvAt_def)

text \<open>
  C4 as stated fails for a firing at or after \<open>t2\<close>: with end times 1000, 2000 and 3000 and
  the timer firing at 2500, the first two entries expire together and the next deadline
  is 3000, not 2000.
\<close>

theorem updateAppEndTimes_late_firing_counterexample:
  "pendingEndTimes (sqliteDb (exState (exDb exRows3))) = [1000, 2000, 3000]
   \<and> 1000 \<le> currentMSecs (exEnvAt 2500)
   \<and> sqlSelectMinEndApp (sqliteDb (updateAppEndTimes (exEnvAt 2500) (exState (exDb exRows3)))) = Some 3000
   \<and> sqlSelectMinEndApp (sqliteDb (updateAppEndTimes (exEnvAt 2500) (exState (exDb exRows3)))) \<noteq> Some 2000
   \<and> m_appEndTimer (updateAppEndTimes (exEnvAt 2500) (exState (exDb exRows3))) = Some 500"
proof -
  let ?s = "exState (exDb exRows3)"
  have now: "currentMSecs (exEnvAt 2500) = 2500" by (simp add: exEnvAt_def)
  have p0: "pendingEndTimes (sqliteDb ?s) = [1000, 2000, 3000]"
    by (simp add: pendingEndTimes_def exState_def exDb_def exRows3_def exRow_def)
  have d: "sqliteDb (updateAppEndTimes (exEnvAt 2500) ?s) = expireRows 2500 (exDb exRows3)"
    using updateAppEndTimes_db [OF exRows3_consistent exEnvAt_healthy, of 2500]
    by (simp add: now exState_def)
  have p1: "pendingEndTimes (expireRows 2500 (exDb exRows3)) = [3000]"
    unfolding exRows3_expired
    by (simp add: pendingEndTimes_def exDb_def exRow_def expireRow_def)
  have m: "sqlSelectMinEndApp (sqliteDb (updateAppEndTimes (exEnvAt 2500) ?s)) = Some 3000"
    by (simp add: d sqlSelectMinEndApp_def p1)
  have "{t \<in> pendingEndTimeSet (sqliteDb ?s). 2500 < t} = {3000}"
    using pending_expireRows [of 2500 "exDb exRows3", symmetric]
    by (simp add: set_pendingEndTimes' [symmetric] p1 exState_def)
  then have t: "m_appEndTimer (updateAppEndTimes (exEnvAt 2500) ?s) = Some 500"
    using updateAppEndTimes_timer [OF exRows3_consistent exEnvAt_healthy exRows3_fit, of 2500]
    by (simp add: now specTimerInterval_def clamp_def)
  from p0 now m t show ?thesis by simp
qed

text \<open>
  C4, as amended. In a consistent store, with every statement and encode succeeding, one
  firing of the expiry timer at time \<open>now\<close> turns every row with \<^verbatim>\<open>end_time <= now\<close> and
  \<^verbatim>\<open>blocked = 0\<close> into a row with \<^verbatim>\<open>blocked = 1\<close>, \<^verbatim>\<open>kill_process = 0\<close> and a NULL
  \<^verbatim>\<open>end_time\<close>, deletes its alert record, and leaves every other row as it was; each such
  row goes through one committed transaction, one \<^verbatim>\<open>appUpdated\<close> notification and one driver
  write; then the timer is recomputed from the end times that remain pending. So for
  pending end times \<open>t1 < t2 < t3\<close> and a firing with \<open>t1 \<le> now < t2\<close>, the entries at \<open>t1\<close> are
  blocked with the end time cleared, and the next deadline is \<open>t2\<close>.
\<close>

theorem updateAppEndTimes_expiry:
  assumes c: "consistentStore e (sqliteDb s)" and h: "healthy e" and fit: "endTimesFit e (sqliteDb s)"
  shows "sqliteDb (updateAppEndTimes e s) = expireRows (currentMSecs e) (sqliteDb s)
   \<and> (\<exists>evs. trace (updateAppEndTimes e s) = trace s @ evs
           \<and> length (filter isPush evs) = length (filter (expired (currentMSecs e)) (app (sqliteDb s)))
           \<and> count_list evs EmitAppUpdated = length (filter (expired (currentMSecs e)) (app (sqliteDb s)))
           \<and> count_list evs CommitTransaction = length (filter (expired (currentMSecs e)) (app (sqliteDb s)))
           \<and> count_list evs RollbackTransaction = 0)
   \<and> m_appEndTimer (updateAppEndTimes e s) =
           (if {t \<in> pendingEndTimeSet (sqliteDb s). currentMSecs e < t} = {} then None
            else Some (specTimerInterval
                         (Min {t \<in> pendingEndTimeSet (sqliteDb s). currentMSecs e < t})
                         (currentMSecs e)))
   \<and> (\<forall>t1 t2 t3. pendingEndTimeSet (sqliteDb s) = {t1, t2, t3} \<and> t1 < t2 \<and> t2 < t3
          \<and> t1 \<le> currentMSecs e \<and> currentMSecs e < t2
        \<longrightarrow> sqlSelectMinEndApp (sqliteDb (updateAppEndTimes e s)) = Some t2
          \<and> m_appEndTimer (updateAppEndTimes e s) = Some (specTimerInterval t2 (currentMSecs e))
          \<and> (\<forall>r\<in>set (app (sqliteDb s)). t_end_time r = Some t1 \<and> \<not> t_blocked r \<longrightarrow>
                (\<exists>r'\<in>set (app (sqliteDb (updateAppEndTimes e s))).
                    t_app_id r' = t_app_id r \<and> t_blocked r' \<and> \<not> t_kill_process r'
                    \<and> t_end_time r' = None)))"
proof -
  let ?now = "currentMSecs e"
  let ?d = "sqliteDb s"
  let ?s' = "updateAppEndTimes e s"
  note db = updateAppEndTimes_db [OF c h]
  note tr = updateAppEndTimes_trace [OF c h]
  note tm = updateAppEndTimes_timer [OF c h fit]
  have sc: "sqlSelectMinEndApp (sqliteDb ?s') = Some t2
          \<and> m_appEndTimer ?s' = Some (specTimerInterval t2 ?now)
          \<and> (\<forall>r\<in>set (app ?d). t_end_time r = Some t1 \<and> \<not> t_blocked r \<longrightarrow>
                (\<exists>r'\<in>set (app (sqliteDb ?s')).
                    t_app_id r' = t_app_id r \<and> t_blocked r' \<and> \<not> t_kill_process r'
                    \<and> t_end_time r' = None))"
    if a: "pendingEndTimeSet ?d = {t1, t2, t3} \<and> t1 < t2 \<and> t2 < t3 \<and> t1 \<le> ?now \<and> ?now < t2"
    for t1 t2 t3
  proof -
    have P: "{t \<in> pendingEndTimeSet ?d. ?now < t} = {t2, t3}"
      using a by auto
    have M: "Min {t2, t3} = t2" using a by simp
    have 1: "sqlSelectMinEndApp (sqliteDb ?s') = Some t2"
      by (simp add: db sqlSelectMinEndApp_pending pending_expireRows P M)
    have 2: "m_appEndTimer ?s' = Some (specTimerInterval t2 ?now)"
      by (simp add: tm P M)
    have 3: "\<exists>r'\<in>set (app (sqliteDb ?s')).
                    t_app_id r' = t_app_id r \<and> t_blocked r' \<and> \<not> t_kill_process r'
                    \<and> t_end_time r' = None"
      if r: "r \<in> set (app ?d)" "t_end_time r = Some t1 \<and> \<not> t_blocked r" for r
    proof -
      have "expired ?now r" using r(2) a by (simp add: expired_def)
      then have "expireRow r \<in> set (app (sqliteDb ?s'))"
        using r(1) by (force simp: db expireRows_def)
      then show ?thesis by (rule_tac x = "expireRow r" in bexI) simp_all
    qed
    from 1 2 3 show ?thesis by blast
  qed
  from db tr tm sc show ?thesis by blast
qed

theorem updateAppEndTimes_expiry_witness:
  "consistentStore (exEnvAt 1500) (sqliteDb (exState (exDb exRows3)))
   \<and> healthy (exEnvAt 1500)
   \<and> endTimesFit (exEnvAt 1500) (sqliteDb (exState (exDb exRows3)))
   \<and> pendingEndTimeSet (sqliteDb (exState (exDb exRows3))) = {1000, 2000, 3000}
   \<and> currentMSecs (exEnvAt 1500) = 1500
   \<and> sqlSelectMinEndApp (sqliteDb (updateAppEndTimes (exEnvAt 1500) (exState (exDb exRows3)))) = Some 2000
   \<and> m_appEndTimer (updateAppEndTimes (exEnvAt 1500) (exState (exDb exRows3))) = Some 500
   \<and> map (\<lambda>r. (t_blocked r, t_kill_process r, t_end_time r))
        (app (sqliteDb (updateAppEndTimes (exEnvAt 1500) (exState (exDb exRows3)))))
       = [(True, False, None), (False, False, Some 2000), (False, False, Some 3000)]"
proof -
  let ?s = "exState (exDb exRows3)"
  let ?e = "exEnvAt 1500"
  have c: "consistentStore ?e (sqliteDb ?s)" by (rule exRows3_consistent)
  have h: "healthy ?e" by (rule exEnvAt_healthy)
  have f: "endTimesFit ?e (sqliteDb ?s)" by (rule exRows3_fit) simp_all
  have p: "pendingEndTimeSet (sqliteDb ?s) = {1000, 2000, 3000}"
    by (simp add: exState_def exRows3_pending)
  have now: "currentMSecs ?e = 1500" by (simp add: exEnvAt_def)
  note th = updateAppEndTimes_expiry [OF c h f]
  have d: "sqliteDb (updateAppEndTimes ?e ?s) = expireRows 1500 (exDb exRows3)"
    using th by (simp add: now exState_def)
  have rows: "map (\<lambda>r. (t_blocked r, t_kill_process r, t_end_time r))
        (app (sqliteDb (updateAppEndTimes ?e ?s)))
       = [(True, False, None), (False, False, Some 2000), (False, False, Some 3000)]"
    unfolding d exRows3_expired by (simp add: exDb_def exRow_def)
  have sc: "sqlSelectMinEndApp (sqliteDb (updateAppEndTimes ?e ?s)) = Some 2000
            \<and> m_appEndTimer (updateAppEndTimes ?e ?s) = Some (specTimerInterval 2000 1500)"
    using th [THEN conjunct2, THEN conjunct2, THEN conjunct2, THEN spec, THEN spec, THEN spec,
        of 1000 2000 3000] p
    by (simp add: now)
  then have "sqlSelectMinEndApp (sqliteDb (updateAppEndTimes ?e ?s)) = Some 2000"
    "m_appEndTimer (updateAppEndTimes ?e ?s) = Some 500"
    by (simp_all add: specTimerInterval_def clamp_def)
  with c h f p now rows show ?thesis by (intro conjI)
qed

subsection \<open>Commit, synchronisation and the store\<close>













lemma no_commit_driverAppEvents: "CommitTransaction \<notin> set (driverAppEvents e a r)"
  by (simp add: driverAppEvents_def split: option.splits)













end
